theory Spec2Isabelle
  imports Main "HOL-Library.AList"
begin

section \<open>Data model of the cape command\<close>

text \<open>
  The cape command of \<^verbatim>\<open>cli/aws.go\<close> (\<^verbatim>\<open>runCapeCommand\<close>) keeps an account ledger
  \<^verbatim>\<open>analyzedAccounts : map[string]aws.CapeJobInfo\<close>, a list of collected nodes and one
  directed graph keyed by ARN. The struct fields below are the ones the command reads and
  writes. Two Go field names occur in two structs; the second occurrence is renamed:
  \<^verbatim>\<open>Node.AccountID\<close> is \<open>NodeAccountID\<close> and \<^verbatim>\<open>Edge.Source\<close> is \<open>EdgeSource\<close>.
\<close>

record CapeJobInfo =
  AccountID :: string
  Profile :: string
  AnalyzedSuccessfully :: bool
  AdminOnlyAnalysis :: bool
  Source :: string

record Node =
  Arn :: string
  Type :: string
  Name :: string
  VendorName :: string
  IsAdminString :: string
  CanPrivEscToAdminString :: string
  NodeAccountID :: string

record Edge =
  EdgeSource :: string
  Destination :: string
  ShortReason :: string
  Reason :: string

record PmapperModule =
  Nodes :: "Node list"
  Edges :: "Edge list"

record CallerIdentity =
  Account :: "string option"

record CloudFoxRunData =
  OutputLocation :: string

type_synonym ledger = "string \<rightharpoonup> CapeJobInfo"

text \<open>\<^verbatim>\<open>ptr.ToString\<close>: the pointed-to string, the empty string for a nil pointer.\<close>

definition ptr_ToString :: "string option \<Rightarrow> string" where
  "ptr_ToString p = (case p of None \<Rightarrow> [] | Some s \<Rightarrow> s)"

section \<open>The graph structure\<close>

text \<open>
  \<^verbatim>\<open>graph.New(graph.StringHash, graph.Directed())\<close> of \<^verbatim>\<open>github.com/dominikbraun/graph\<close>
  (v0.23.0 in \<^verbatim>\<open>go.mod\<close>): vertices are stored under their hash (the ARN itself) with
  a map of attributes, edges under the ordered pair (source, target) with a map of
  attributes. The store is kept here as two association lists in insertion order, so that
  "one vertex per ARN" and "one edge per pair" are properties to prove and not artefacts
  of the representation. The operations return the package's error values. The method
  \<^verbatim>\<open>Edge\<close> of the package is \<open>GetEdge\<close> here.
\<close>

type_synonym attributes = "(string \<times> string) list"

record Graph =
  vertices :: "(string \<times> attributes) list"
  edges :: "((string \<times> string) \<times> attributes) list"

datatype graphError =
  ErrVertexNotFound | ErrVertexAlreadyExists | ErrVertexHasEdges
  | ErrEdgeNotFound | ErrEdgeAlreadyExists

definition emptyGraph :: Graph where
  "emptyGraph = \<lparr>vertices = [], edges = []\<rparr>"

text \<open>Functional options: each one edits the attribute map of the new vertex or edge.\<close>

definition VertexAttribute :: "string \<Rightarrow> string \<Rightarrow> attributes \<Rightarrow> attributes" where
  "VertexAttribute k v a = AList.update k v a"

definition EdgeAttribute :: "string \<Rightarrow> string \<Rightarrow> attributes \<Rightarrow> attributes" where
  "EdgeAttribute k v a = AList.update k v a"

definition EdgeAttributes :: "attributes \<Rightarrow> attributes \<Rightarrow> attributes" where
  "EdgeAttributes new a = new"

definition AddVertex :: "Graph \<Rightarrow> string \<Rightarrow> (attributes \<Rightarrow> attributes) \<Rightarrow> graphError + Graph" where
  "AddVertex g h opts =
     (if map_of (vertices g) h \<noteq> None then Inl ErrVertexAlreadyExists
      else Inr (g\<lparr>vertices := vertices g @ [(h, opts [])]\<rparr>))"

definition hasEdges :: "Graph \<Rightarrow> string \<Rightarrow> bool" where
  "hasEdges g h = list_ex (\<lambda>e. fst (fst e) = h \<or> snd (fst e) = h) (edges g)"

definition RemoveVertex :: "Graph \<Rightarrow> string \<Rightarrow> graphError + Graph" where
  "RemoveVertex g h =
     (if map_of (vertices g) h = None then Inl ErrVertexNotFound
      else if hasEdges g h then Inl ErrVertexHasEdges
      else Inr (g\<lparr>vertices := AList.delete h (vertices g)\<rparr>))"

definition AddEdge :: "Graph \<Rightarrow> string \<Rightarrow> string \<Rightarrow> (attributes \<Rightarrow> attributes) \<Rightarrow> graphError + Graph" where
  "AddEdge g s d opts =
     (if map_of (vertices g) s = None then Inl ErrVertexNotFound
      else if map_of (vertices g) d = None then Inl ErrVertexNotFound
      else if map_of (edges g) (s, d) \<noteq> None then Inl ErrEdgeAlreadyExists
      else Inr (g\<lparr>edges := edges g @ [((s, d), opts [])]\<rparr>))"

definition GetEdge :: "Graph \<Rightarrow> string \<Rightarrow> string \<Rightarrow> graphError + attributes" where
  "GetEdge g s d =
     (case map_of (edges g) (s, d) of
        None \<Rightarrow> Inl ErrEdgeNotFound
      | Some a \<Rightarrow>
          if map_of (vertices g) s = None \<or> map_of (vertices g) d = None
          then Inl ErrVertexNotFound else Inr a)"

definition UpdateEdge :: "Graph \<Rightarrow> string \<Rightarrow> string \<Rightarrow> (attributes \<Rightarrow> attributes) \<Rightarrow> graphError + Graph" where
  "UpdateEdge g s d opts =
     (case map_of (edges g) (s, d) of
        None \<Rightarrow> Inl ErrEdgeNotFound
      | Some a \<Rightarrow> Inr (g\<lparr>edges := AList.update (s, d) (opts a) (edges g)\<rparr>))"

section \<open>Vertex insertion and the discovered accounts (lines 1160-1178)\<close>

definition vertexOptions :: "Node \<Rightarrow> attributes \<Rightarrow> attributes" where
  "vertexOptions node =
     VertexAttribute ''AccountID'' (NodeAccountID node)
     \<circ> VertexAttribute ''CanPrivEscToAdminString'' (CanPrivEscToAdminString node)
     \<circ> VertexAttribute ''IsAdminString'' (IsAdminString node)
     \<circ> VertexAttribute ''VendorName'' (VendorName node)
     \<circ> VertexAttribute ''Name'' (Name node)
     \<circ> VertexAttribute ''Type'' (Type node)"

text \<open>
  The ledger part of the loop body: an account that is no key of the ledger yet gets a
  record with source \<^verbatim>\<open>cloudfox\<close>, unless the node is a vendor's or has no account ID.
\<close>

definition discoveredAccount :: "bool \<Rightarrow> string \<Rightarrow> CapeJobInfo" where
  "discoveredAccount capeAdminOnly acct =
     \<lparr>AccountID = acct, Profile = [], AnalyzedSuccessfully = False,
      AdminOnlyAnalysis = capeAdminOnly, Source = ''cloudfox''\<rparr>"

definition discoverAccount :: "bool \<Rightarrow> ledger \<Rightarrow> Node \<Rightarrow> ledger" where
  "discoverAccount capeAdminOnly analyzed node =
     (if analyzed (NodeAccountID node) = None then
        if VendorName node = [] then
          if NodeAccountID node \<noteq> [] then
            analyzed(NodeAccountID node \<mapsto> discoveredAccount capeAdminOnly (NodeAccountID node))
          else analyzed
        else analyzed
      else analyzed)"

section \<open>The collaborators and the state of one run\<close>

text \<open>
  Everything \<^verbatim>\<open>runCapeCommand\<close> obtains from outside is a field of the environment: the
  command-line flags, the operator's answers on standard input, and the functions of the
  packages \<^verbatim>\<open>internal\<close>, \<^verbatim>\<open>aws\<close> and \<^verbatim>\<open>sdk\<close> it calls (their bodies are not part of
  \<^verbatim>\<open>cli/aws.go\<close>). \<open>'r\<close> and \<open>'u\<close> are the IAM role and user descriptions of the SDK.
  Each of them is a function: asked again, it answers the same.
  A failing call is \<open>None\<close> or \<open>Inl\<close>. \<open>GetRows\<close> is \<^verbatim>\<open>PermissionsCommandClient.Rows\<close>
  after \<^verbatim>\<open>GetGAAD\<close> and \<^verbatim>\<open>ParsePermissions\<close>, \<open>None\<close> for the nil slice. The two listing
  calls log their error and the loop runs over whatever slice they returned. \<open>stdin\<close>
  holds, for each future call of \<^verbatim>\<open>fmt.Scanln(&continueAnalysis)\<close>, the string that
  call stores.
\<close>

record ('r, 'u) Env =
  AWSProfiles :: "string list"
  AWSProfile :: string
  AWSOutputDirectory :: string
  CapeAdminOnly :: bool
  CapeArnIgnoreList :: string
  stdin :: "string list"
  AWSWhoami :: "string \<Rightarrow> CallerIdentity option"
  InitializeCloudFoxRunData :: "string \<Rightarrow> string \<Rightarrow> CloudFoxRunData option"
  InitPmapperGraph :: "CallerIdentity \<Rightarrow> string \<Rightarrow> string + PmapperModule"
  GetRows :: "string \<Rightarrow> string list option"
  CachedIamListRoles :: "string \<Rightarrow> string \<Rightarrow> 'r list"
  CachedIamListUsers :: "string \<Rightarrow> string \<Rightarrow> 'u list"
  ConvertIAMRoleToNode :: "'r \<Rightarrow> ledger \<Rightarrow> Node"
  FindVerticesInRoleTrust :: "Node \<Rightarrow> Node list"
  ConvertIAMUserToNode :: "'u \<Rightarrow> Node"
  MergeNodes :: "Node list \<Rightarrow> Node list"
  ReadArnIgnoreListFile :: "string \<Rightarrow> string list"
  MakeRoleEdges :: "Node \<Rightarrow> Graph \<Rightarrow> Graph"

text \<open>
  The calls of \<^verbatim>\<open>aws.MergeNodes\<close> and \<^verbatim>\<open>GlobalGraph.AddVertex\<close> that a run makes are
  recorded, in order, in the history \<open>calls\<close>; nothing reads it.
\<close>

datatype call = CallMergeNodes "Node list" | CallAddVertex Node

record CapeRun =
  analyzedAccounts :: ledger
  pmapperData :: "string \<rightharpoonup> PmapperModule"
  unread :: "string list"
  PermissionRowsFromAllProfiles :: "string list"
  GlobalNodes :: "Node list"
  GlobalPmapperEdges :: "Edge list"
  mergedNodes :: "Node list"
  GlobalGraph :: Graph
  calls :: "call list"

text \<open>\<^verbatim>\<open>os.Exit(code)\<close>, with the state the process had when it left.\<close>

datatype exit = OsExit int CapeRun

definition initialRun :: "('r, 'u) Env \<Rightarrow> CapeRun" where
  "initialRun env =
     \<lparr>analyzedAccounts = Map.empty, pmapperData = Map.empty, unread = stdin env,
      PermissionRowsFromAllProfiles = [], GlobalNodes = [], GlobalPmapperEdges = [],
      mergedNodes = [], GlobalGraph = emptyGraph, calls = []\<rparr>"

section \<open>The three loops over the profiles (lines 1023-1147)\<close>

text \<open>First loop: every profile that resolves gets a ledger record with source \<^verbatim>\<open>user\<close>.\<close>

definition userAccount :: "bool \<Rightarrow> string \<Rightarrow> string \<Rightarrow> CapeJobInfo" where
  "userAccount capeAdminOnly acct profile =
     \<lparr>AccountID = acct, Profile = profile, AnalyzedSuccessfully = True,
      AdminOnlyAnalysis = capeAdminOnly, Source = ''user''\<rparr>"

definition registerProfile :: "('r, 'u) Env \<Rightarrow> CapeRun \<Rightarrow> string \<Rightarrow> CapeRun" where
  "registerProfile env st profile =
     (case AWSWhoami env profile of
        None \<Rightarrow> st
      | Some caller \<Rightarrow>
          (case InitializeCloudFoxRunData env profile (AWSOutputDirectory env) of
             None \<Rightarrow> st
           | Some _ \<Rightarrow>
               st\<lparr>analyzedAccounts := (analyzedAccounts st)
                 (ptr_ToString (Account caller) \<mapsto>
                    userAccount (CapeAdminOnly env) (ptr_ToString (Account caller)) profile)\<rparr>))"

text \<open>
  The record written on a failure is the struct literal
  \<^verbatim>\<open>aws.CapeJobInfo{AnalyzedSuccessfully: false}\<close>: every other field has Go's zero value.
\<close>

definition failedAccount :: CapeJobInfo where
  "failedAccount =
     \<lparr>AccountID = [], Profile = [], AnalyzedSuccessfully = False,
      AdminOnlyAnalysis = False, Source = []\<rparr>"

definition Scanln :: "string list \<Rightarrow> string \<times> string list" where
  "Scanln inp = (case inp of [] \<Rightarrow> ([], []) | l # ls \<Rightarrow> (l, ls))"

text \<open>
  Second loop: the pmapper import. A failed import overwrites the ledger entry, asks the
  operator, and either goes on to the next profile or leaves the process with status 1.
\<close>

fun importPmapperData :: "('r, 'u) Env \<Rightarrow> string list \<Rightarrow> CapeRun \<Rightarrow> exit + CapeRun" where
  "importPmapperData env [] st = Inr st"
| "importPmapperData env (profile # rest) st =
     (case AWSWhoami env profile of
        None \<Rightarrow> importPmapperData env rest st
      | Some caller \<Rightarrow>
          (case InitPmapperGraph env caller (AWSProfile env) of
             Inl pmapperError \<Rightarrow>
               (let st' = st\<lparr>analyzedAccounts :=
                            (analyzedAccounts st)(ptr_ToString (Account caller) \<mapsto> failedAccount)\<rparr>;
                    continueAnalysis = fst (Scanln (unread st'));
                    st'' = st'\<lparr>unread := snd (Scanln (unread st'))\<rparr>
                in if continueAnalysis = ''y'' then importPmapperData env rest st''
                   else Inl (OsExit 1 st''))
           | Inr pmapperMod \<Rightarrow>
               importPmapperData env rest
                 (st\<lparr>pmapperData := (pmapperData st)(profile \<mapsto> pmapperMod)\<rparr>)))"

text \<open>
  Third loop: permissions, the imported pmapper nodes and edges, the roles with the
  principals of their trust policies, the users.
\<close>

definition addRole :: "('r, 'u) Env \<Rightarrow> CapeRun \<Rightarrow> 'r \<Rightarrow> CapeRun" where
  "addRole env st role =
     (let node = ConvertIAMRoleToNode env role (analyzedAccounts st)
      in st\<lparr>GlobalNodes := (GlobalNodes st @ [node]) @ FindVerticesInRoleTrust env node\<rparr>)"

definition addUser :: "('r, 'u) Env \<Rightarrow> CapeRun \<Rightarrow> 'u \<Rightarrow> CapeRun" where
  "addUser env st user = st\<lparr>GlobalNodes := GlobalNodes st @ [ConvertIAMUserToNode env user]\<rparr>"

definition gatherPermissions :: "('r, 'u) Env \<Rightarrow> CapeRun \<Rightarrow> string \<Rightarrow> string \<Rightarrow> CapeRun" where
  "gatherPermissions env st profile acct =
     (case GetRows env profile of
        Some rows \<Rightarrow>
          st\<lparr>PermissionRowsFromAllProfiles := PermissionRowsFromAllProfiles st @ rows\<rparr>
      | None \<Rightarrow> st\<lparr>analyzedAccounts := (analyzedAccounts st)(acct \<mapsto> failedAccount)\<rparr>)"

definition pmapperModOf :: "CapeRun \<Rightarrow> string \<Rightarrow> PmapperModule" where
  "pmapperModOf st profile =
     (case pmapperData st profile of None \<Rightarrow> \<lparr>Nodes = [], Edges = []\<rparr> | Some m \<Rightarrow> m)"

definition collectProfile :: "('r, 'u) Env \<Rightarrow> CapeRun \<Rightarrow> string \<Rightarrow> CapeRun" where
  "collectProfile env st profile =
     (case AWSWhoami env profile of
        None \<Rightarrow> st
      | Some caller \<Rightarrow>
          (let acct = ptr_ToString (Account caller);
               st1 = gatherPermissions env st profile acct;
               pmapperMod = pmapperModOf st1 profile;
               st2 = st1\<lparr>GlobalNodes := GlobalNodes st1 @ Nodes pmapperMod\<rparr>;
               st3 = st2\<lparr>GlobalPmapperEdges := GlobalPmapperEdges st2 @ Edges pmapperMod\<rparr>;
               st4 = foldl (addRole env) st3 (CachedIamListRoles env profile acct)
           in foldl (addUser env) st4 (CachedIamListUsers env profile acct)))"

section \<open>Assembling the graph (lines 1154-1240)\<close>

definition insertVertex :: "bool \<Rightarrow> CapeRun \<Rightarrow> Node \<Rightarrow> CapeRun" where
  "insertVertex capeAdminOnly st node =
     st\<lparr>GlobalGraph :=
          (case AddVertex (GlobalGraph st) (Arn node) (vertexOptions node) of
             Inl err \<Rightarrow> GlobalGraph st
           | Inr g \<Rightarrow> g),
        calls := calls st @ [CallAddVertex node],
        analyzedAccounts := discoverAccount capeAdminOnly (analyzedAccounts st) node\<rparr>"

definition makeVertices :: "('r, 'u) Env \<Rightarrow> CapeRun \<Rightarrow> CapeRun" where
  "makeVertices env st =
     (let merged = MergeNodes env (GlobalNodes st);
          st1 = st\<lparr>mergedNodes := merged, calls := calls st @ [CallMergeNodes (GlobalNodes st)]\<rparr>
      in foldl (insertVertex (CapeAdminOnly env)) st1 merged)"

definition removeIgnored :: "Graph \<Rightarrow> string \<Rightarrow> Graph" where
  "removeIgnored g arn = (case RemoveVertex g arn of Inl err \<Rightarrow> g | Inr g' \<Rightarrow> g')"

definition applyArnIgnoreList :: "('r, 'u) Env \<Rightarrow> CapeRun \<Rightarrow> CapeRun" where
  "applyArnIgnoreList env st =
     (if CapeArnIgnoreList env \<noteq> [] then
        st\<lparr>GlobalGraph := foldl removeIgnored (GlobalGraph st)
                             (ReadArnIgnoreListFile env (CapeArnIgnoreList env))\<rparr>
      else st)"

text \<open>
  One imported edge. When the pair is already an edge, the attribute map of the stored
  edge gets the new reason (in Go the map read from the edge is the stored map itself,
  and \<^verbatim>\<open>UpdateEdge\<close> stores it again). Every other error of \<^verbatim>\<open>AddEdge\<close> is dropped.
\<close>

definition addPmapperEdge :: "Graph \<Rightarrow> Edge \<Rightarrow> Graph" where
  "addPmapperEdge g edge =
     (case AddEdge g (EdgeSource edge) (Destination edge)
             (EdgeAttribute (ShortReason edge) (Reason edge)) of
        Inr g' \<Rightarrow> g'
      | Inl err \<Rightarrow>
          if err = ErrEdgeAlreadyExists then
            (let existingAttributes =
                   (case GetEdge g (EdgeSource edge) (Destination edge) of
                      Inl err' \<Rightarrow> []
                    | Inr a \<Rightarrow> a);
                 newAttributes = AList.update (ShortReason edge) (Reason edge) existingAttributes
             in case UpdateEdge g (EdgeSource edge) (Destination edge)
                       (EdgeAttributes newAttributes) of
                  Inl err' \<Rightarrow> g
                | Inr g' \<Rightarrow> g')
          else g)"

definition makePmapperEdges :: "CapeRun \<Rightarrow> CapeRun" where
  "makePmapperEdges st =
     st\<lparr>GlobalGraph := foldl addPmapperEdge (GlobalGraph st) (GlobalPmapperEdges st)\<rparr>"

definition makeRoleEdges :: "('r, 'u) Env \<Rightarrow> CapeRun \<Rightarrow> CapeRun" where
  "makeRoleEdges env st =
     st\<lparr>GlobalGraph :=
          foldl (\<lambda>g node. if Type node = ''Role'' then MakeRoleEdges env node g else g)
            (GlobalGraph st) (mergedNodes st)\<rparr>"

text \<open>
  The command up to the finished graph (line 1245). What follows in the source hands
  the graph and the ledger to the query of each profile.
\<close>

definition collectAll :: "('r, 'u) Env \<Rightarrow> CapeRun \<Rightarrow> CapeRun" where
  "collectAll env st = foldl (collectProfile env) st (AWSProfiles env)"

definition assemble :: "('r, 'u) Env \<Rightarrow> CapeRun \<Rightarrow> CapeRun" where
  "assemble env st =
     makeRoleEdges env (makePmapperEdges (applyArnIgnoreList env (makeVertices env st)))"

definition runCapeCommand :: "('r, 'u) Env \<Rightarrow> exit + CapeRun" where
  "runCapeCommand env =
     (case importPmapperData env (AWSProfiles env)
             (foldl (registerProfile env) (initialRun env) (AWSProfiles env)) of
        Inl e \<Rightarrow> Inl e
      | Inr st \<Rightarrow> Inr (assemble env (collectAll env st)))"

section \<open>Node merge\<close>

text \<open>
  Modelled from the spec: \<^verbatim>\<open>aws.MergeNodes\<close> is called at line 1159 and its body is not
  among the sources. Section 4.1 of the specification: the input nodes are grouped by
  ARN, and each group yields one node whose fields are the union of the non-empty fields
  of the group, \<^verbatim>\<open>vendorName\<close> and \<^verbatim>\<open>type\<close> taking the first non-empty value seen. The
  specification does not say how the three risk values are spelled in the two risk
  strings, so its conflict policy on them is the parameter \<open>risk\<close>.
\<close>

definition firstNonEmpty :: "string \<Rightarrow> string \<Rightarrow> string" where
  "firstNonEmpty seen new = (if seen = [] then new else seen)"

text \<open>
  Modelled from the spec: the node of a group after one more node of the same ARN has
  been seen (section 4.1, "the union of non-empty fields across the group").
\<close>

definition mergeNodeData :: "(string \<Rightarrow> string \<Rightarrow> string) \<Rightarrow> Node \<Rightarrow> Node \<Rightarrow> Node" where
  "mergeNodeData risk existing new =
     existing\<lparr>Type := firstNonEmpty (Type existing) (Type new),
              Name := firstNonEmpty (Name existing) (Name new),
              VendorName := firstNonEmpty (VendorName existing) (VendorName new),
              IsAdminString := risk (IsAdminString existing) (IsAdminString new),
              CanPrivEscToAdminString :=
                risk (CanPrivEscToAdminString existing) (CanPrivEscToAdminString new),
              NodeAccountID := firstNonEmpty (NodeAccountID existing) (NodeAccountID new)\<rparr>"

text \<open>
  Modelled from the spec: one input node joins the group of its ARN, or starts a new
  group (section 4.1, "groups input nodes by arn").
\<close>

fun mergeInto :: "(string \<Rightarrow> string \<Rightarrow> string) \<Rightarrow> Node list \<Rightarrow> Node \<Rightarrow> Node list" where
  "mergeInto risk [] node = [node]"
| "mergeInto risk (existing # groups) node =
     (if Arn existing = Arn node then mergeNodeData risk existing node # groups
      else existing # mergeInto risk groups node)"

text \<open>
  Modelled from the spec: \<^verbatim>\<open>aws.MergeNodes\<close>, whose body is not among the sources
  (section 4.1, \<^verbatim>\<open>mergeNodes(nodes: sequence<Node>) -> sequence<Node>\<close>).
\<close>

definition mergeNodes :: "(string \<Rightarrow> string \<Rightarrow> string) \<Rightarrow> Node list \<Rightarrow> Node list" where
  "mergeNodes risk nodes = foldl (mergeInto risk) [] nodes"

section \<open>Where the viewer looks for the result file (lines 1323-1335)\<close>

text \<open>
  \<^verbatim>\<open>filepath.Join\<close> of Go's standard library on a slash-separated system: the elements
  from the first non-empty one on are joined with slashes and the result is cleaned.
  \<^verbatim>\<open>Clean\<close> is written on path elements, by the four rules of its documentation: empty
  elements and \<^verbatim>\<open>.\<close> elements go, a \<^verbatim>\<open>..\<close> element removes the element other than \<^verbatim>\<open>..\<close>
  before it, a \<^verbatim>\<open>..\<close> at the start of a rooted path goes; the empty result is \<^verbatim>\<open>.\<close>.
\<close>

fun elements :: "string \<Rightarrow> string \<Rightarrow> string list" where
  "elements cur [] = [cur]"
| "elements cur (c # cs) =
     (if c = CHR ''/'' then cur # elements [] cs else elements (cur @ [c]) cs)"

fun joinSlash :: "string list \<Rightarrow> string" where
  "joinSlash [] = []"
| "joinSlash [e] = e"
| "joinSlash (e # es) = e @ CHR ''/'' # joinSlash es"

definition cleanStep :: "bool \<Rightarrow> string list \<Rightarrow> string \<Rightarrow> string list" where
  "cleanStep rooted out e =
     (if e = [] \<or> e = ''.'' then out
      else if e = ''..'' then
        (if out \<noteq> [] \<and> last out \<noteq> ''..'' then butlast out
         else if rooted then out
         else out @ [''..''])
      else out @ [e])"

definition filepath_Clean :: "string \<Rightarrow> string" where
  "filepath_Clean path =
     (if path = [] then ''.''
      else
        (let rooted = (hd path = CHR ''/'');
             out = foldl (cleanStep rooted) [] (elements [] path)
         in if rooted then CHR ''/'' # joinSlash out
            else if out = [] then ''.''
            else joinSlash out))"

fun filepath_Join :: "string list \<Rightarrow> string" where
  "filepath_Join [] = []"
| "filepath_Join (e # es) =
     (if e = [] then filepath_Join es else filepath_Clean (joinSlash (e # es)))"

text \<open>
  The directory part that cleaning leaves of a first element, with its closing slash:
  used to say what \<^verbatim>\<open>Join\<close> returns when ordinary names follow.
\<close>

definition cleanedDir :: "string \<Rightarrow> string" where
  "cleanedDir dir =
     (if dir = [] then []
      else
        (let rooted = (hd dir = CHR ''/'');
             out = foldl (cleanStep rooted) [] (elements [] dir)
         in (if rooted then ''/'' else []) @ (if out = [] then [] else joinSlash out @ ''/'')))"

definition capeFileName :: "bool \<Rightarrow> string" where
  "capeFileName capeAdminOnly =
     (if capeAdminOnly then ''inbound-privesc-paths-admin-targets-only.json''
      else ''inbound-privesc-paths-all-targets.json'')"

definition capeFilePath :: "string \<Rightarrow> bool \<Rightarrow> string" where
  "capeFilePath outputLocation capeAdminOnly =
     filepath_Join [outputLocation, ''json'', capeFileName capeAdminOnly]"

text \<open>
  The body of the viewer's loop for one profile: nothing when the run data of the
  profile cannot be initialised, else the location appended to
  \<^verbatim>\<open>capeOutputFileLocations\<close>.
\<close>

definition capeOutputFileLocation :: "('r, 'u) Env \<Rightarrow> string \<Rightarrow> string option" where
  "capeOutputFileLocation env profile =
     (case InitializeCloudFoxRunData env profile (AWSOutputDirectory env) of
        None \<Rightarrow> None
      | Some cloudfoxRunData \<Rightarrow>
          Some (capeFilePath (OutputLocation cloudfoxRunData) (CapeAdminOnly env)))"

section \<open>A small run\<close>

text \<open>
  Two profiles: \<^verbatim>\<open>dev\<close> (account 111) with pmapper data, one role that trusts an
  account 333, a vendor's account 444 and the wildcard, and \<^verbatim>\<open>prod\<close> (account 222)
  whose pmapper import fails. A role of the
  listing is given by its ARN and its account. The operator answers \<^verbatim>\<open>y\<close>.
\<close>

definition alice :: Node where
  "alice = \<lparr>Arn = ''arn:aws:iam::111:user/alice'', Type = ''User'', Name = ''alice'',
            VendorName = [], IsAdminString = ''No'', CanPrivEscToAdminString = ''Yes'',
            NodeAccountID = ''111''\<rparr>"

definition admin :: Node where
  "admin = \<lparr>Arn = ''arn:aws:iam::111:role/admin'', Type = ''Role'', Name = ''admin'',
            VendorName = [], IsAdminString = ''Yes'', CanPrivEscToAdminString = ''Yes'',
            NodeAccountID = ''111''\<rparr>"

definition partner :: Node where
  "partner = \<lparr>Arn = ''arn:aws:iam::333:root'', Type = ''Account'', Name = [],
              VendorName = [], IsAdminString = [], CanPrivEscToAdminString = [],
              NodeAccountID = ''333''\<rparr>"

text \<open>A principal without an account ID, as the wildcard of a trust policy.\<close>

definition wildcard :: Node where
  "wildcard = \<lparr>Arn = ''*'', Type = ''Unknown'', Name = [], VendorName = [],
              IsAdminString = [], CanPrivEscToAdminString = [], NodeAccountID = []\<rparr>"

text \<open>A principal of an account that the vendor lookup knows.\<close>

definition logging :: Node where
  "logging = \<lparr>Arn = ''arn:aws:iam::444:root'', Type = ''Account'', Name = [],
              VendorName = ''Vendor'', IsAdminString = [], CanPrivEscToAdminString = [],
              NodeAccountID = ''444''\<rparr>"

definition devPmapper :: PmapperModule where
  "devPmapper =
     \<lparr>Nodes = [alice, admin],
      Edges = [\<lparr>EdgeSource = Arn alice, Destination = Arn admin,
                ShortReason = ''sts:AssumeRole'', Reason = ''can call sts:AssumeRole''\<rparr>,
               \<lparr>EdgeSource = Arn alice, Destination = Arn admin,
                ShortReason = ''iam:PassRole'', Reason = ''can pass the role to EC2''\<rparr>]\<rparr>"

definition exampleEnv :: "(string \<times> string, string) Env" where
  "exampleEnv =
     \<lparr>AWSProfiles = [''dev'', ''prod''],
      AWSProfile = [],
      AWSOutputDirectory = ''/out'',
      CapeAdminOnly = True,
      CapeArnIgnoreList = [],
      stdin = [''y''],
      AWSWhoami = (\<lambda>profile.
        if profile = ''dev'' then Some \<lparr>Account = Some ''111''\<rparr>
        else if profile = ''prod'' then Some \<lparr>Account = Some ''222''\<rparr>
        else None),
      InitializeCloudFoxRunData = (\<lambda>profile dir.
        Some \<lparr>OutputLocation = dir @ ''/cloudfox-output/aws/'' @ profile\<rparr>),
      InitPmapperGraph = (\<lambda>caller profile.
        if Account caller = Some ''111'' then Inr devPmapper else Inl ''no pmapper data''),
      GetRows = (\<lambda>profile. Some [profile]),
      CachedIamListRoles = (\<lambda>profile acct.
        if acct = ''111'' then [(Arn admin, ''111'')] else []),
      CachedIamListUsers = (\<lambda>profile acct. []),
      ConvertIAMRoleToNode = (\<lambda>role analyzed.
        \<lparr>Arn = fst role, Type = ''Role'', Name = [], VendorName = [], IsAdminString = [],
         CanPrivEscToAdminString = [], NodeAccountID = snd role\<rparr>),
      FindVerticesInRoleTrust = (\<lambda>node.
        if Arn node = Arn admin then [partner, logging, wildcard] else []),
      ConvertIAMUserToNode = (\<lambda>user.
        \<lparr>Arn = user, Type = ''User'', Name = [], VendorName = [], IsAdminString = [],
         CanPrivEscToAdminString = [], NodeAccountID = []\<rparr>),
      MergeNodes = mergeNodes firstNonEmpty,
      ReadArnIgnoreListFile = (\<lambda>path. [Arn admin]),
      MakeRoleEdges = (\<lambda>node g. g)\<rparr>"

definition twoVertices :: Graph where
  "twoVertices =
     \<lparr>vertices = [(Arn alice, vertexOptions alice []), (Arn admin, vertexOptions admin [])],
      edges = []\<rparr>"

section \<open>Notions used in the statements\<close>

text \<open>The store holds each vertex and each ordered pair once.\<close>

definition wellFormed :: "Graph \<Rightarrow> bool" where
  "wellFormed g = (distinct (map fst (vertices g)) \<and> distinct (map fst (edges g)))"

text \<open>Both ends of every stored edge are vertices.\<close>

definition edgesClosed :: "Graph \<Rightarrow> bool" where
  "edgesClosed g =
     list_all (\<lambda>e. map_of (vertices g) (fst (fst e)) \<noteq> None
                  \<and> map_of (vertices g) (snd (fst e)) \<noteq> None) (edges g)"

text \<open>
  The account a profile resolves to, and the two per-account failures of the collection:
  the pmapper import returns an error, the permissions client ends with no rows.
\<close>

definition accountOf :: "('r, 'u) Env \<Rightarrow> string \<Rightarrow> string option" where
  "accountOf env profile =
     (case AWSWhoami env profile of None \<Rightarrow> None | Some caller \<Rightarrow> Some (ptr_ToString (Account caller)))"

definition pmapperFails :: "('r, 'u) Env \<Rightarrow> string \<Rightarrow> bool" where
  "pmapperFails env profile =
     (case AWSWhoami env profile of
        None \<Rightarrow> False
      | Some caller \<Rightarrow> isl (InitPmapperGraph env caller (AWSProfile env)))"

definition permissionsFail :: "('r, 'u) Env \<Rightarrow> string \<Rightarrow> bool" where
  "permissionsFail env profile =
     (case AWSWhoami env profile of None \<Rightarrow> False | Some caller \<Rightarrow> GetRows env profile = None)"

definition importedModule :: "('r, 'u) Env \<Rightarrow> string \<Rightarrow> PmapperModule option" where
  "importedModule env profile =
     (case AWSWhoami env profile of
        None \<Rightarrow> None
      | Some caller \<Rightarrow>
          (case InitPmapperGraph env caller (AWSProfile env) of
             Inl err \<Rightarrow> None
           | Inr m \<Rightarrow> Some m))"

definition failedIn :: "('r, 'u) Env \<Rightarrow> string \<Rightarrow> bool" where
  "failedIn env acct =
     list_ex (\<lambda>profile. accountOf env profile = Some acct
                \<and> (pmapperFails env profile \<or> permissionsFail env profile)) (AWSProfiles env)"

text \<open>
  The answers the operator is asked for: one for each profile whose pmapper import
  fails, read from standard input in order; at the end of the input the answer is empty.
\<close>

definition promptAnswers :: "('r, 'u) Env \<Rightarrow> string list" where
  "promptAnswers env =
     (let n = length (filter (pmapperFails env) (AWSProfiles env))
      in take n (stdin env @ replicate n []))"

text \<open>The calls a run has made, whether it returned or left the process.\<close>

definition callsOf :: "exit + CapeRun \<Rightarrow> call list" where
  "callsOf r = (case r of Inl (OsExit code st) \<Rightarrow> calls st | Inr st \<Rightarrow> calls st)"

text \<open>The ledger after the first loop.\<close>

definition registered :: "('r, 'u) Env \<Rightarrow> ledger" where
  "registered env =
     analyzedAccounts (foldl (registerProfile env) (initialRun env) (AWSProfiles env))"

section \<open>Properties\<close>

subsection \<open>The discovered accounts\<close>

lemma ledger_insertVertex [simp]:
  "analyzedAccounts (insertVertex b st node) = discoverAccount b (analyzedAccounts st) node"
  by (simp add: insertVertex_def)

lemma ledger_insertVertices:
  "analyzedAccounts (foldl (insertVertex b) st nodes) = foldl (discoverAccount b) (analyzedAccounts st) nodes"
  by (induction nodes arbitrary: st) simp_all

lemma discoverAccount_fold:
  "foldl (discoverAccount b) analyzed nodes acct =
     (case analyzed acct of
        Some r \<Rightarrow> Some r
      | None \<Rightarrow>
          if acct \<noteq> [] \<and> (\<exists>n \<in> set nodes. NodeAccountID n = acct \<and> VendorName n = [])
          then Some (discoveredAccount b acct) else None)"
proof (induction nodes arbitrary: analyzed)
  case Nil
  then show ?case by (simp split: option.splits)
next
  case (Cons n nodes)
  show ?case
    unfolding foldl_Cons Cons.IH
    by (auto simp: discoverAccount_def split: option.splits)
qed

text \<open>
  C6, as amended. After the vertices of the nodes have been inserted, the ledger entry of
  an account is: the entry it had before, when it had one; otherwise the record
  \<^verbatim>\<open>{AccountID: acct, Profile: "", AnalyzedSuccessfully: false, AdminOnlyAnalysis:
  CapeAdminOnly, Source: "cloudfox"}\<close> when the account ID is not empty and some inserted
  node of that account has an empty vendor name; otherwise none. So a node with a vendor
  name creates no entry, and neither does a node with an empty account ID.
\<close>

theorem discovered_accounts:
  "analyzedAccounts (foldl (insertVertex capeAdminOnly) st nodes) acct =
     (case analyzedAccounts st acct of
        Some r \<Rightarrow> Some r
      | None \<Rightarrow>
          if acct \<noteq> [] \<and> (\<exists>node \<in> set nodes. NodeAccountID node = acct \<and> VendorName node = [])
          then Some \<lparr>AccountID = acct, Profile = [], AnalyzedSuccessfully = False,
                     AdminOnlyAnalysis = capeAdminOnly, Source = ''cloudfox''\<rparr>
          else None)"
  unfolding ledger_insertVertices discoverAccount_fold discoveredAccount_def by simp

text \<open>
  Witness for C6: the three principals of the trust policy of the small run. Account 333
  gets a record, the vendor's account 444 and the empty account ID get none.
\<close>

theorem discovered_accounts_witness:
  "analyzedAccounts (foldl (insertVertex True) (initialRun exampleEnv) [partner, logging, wildcard]) ''333'' =
     Some \<lparr>AccountID = ''333'', Profile = [], AnalyzedSuccessfully = False,
           AdminOnlyAnalysis = True, Source = ''cloudfox''\<rparr>
   \<and> analyzedAccounts (foldl (insertVertex True) (initialRun exampleEnv) [partner, logging, wildcard]) ''444'' = None
   \<and> analyzedAccounts (foldl (insertVertex True) (initialRun exampleEnv) [partner, logging, wildcard]) [] = None"
proof -
  have i: "analyzedAccounts (initialRun exampleEnv) acct = None" for acct
    by (simp add: initialRun_def)
  have n: "NodeAccountID partner = ''333''" "VendorName partner = []"
    "NodeAccountID logging = ''444''" "VendorName logging = ''Vendor''"
    "NodeAccountID wildcard = []" "VendorName wildcard = []"
    by (simp_all add: partner_def logging_def wildcard_def)
  show ?thesis
    using discovered_accounts [of True "initialRun exampleEnv" "[partner, logging, wildcard]" "''333''"]
      discovered_accounts [of True "initialRun exampleEnv" "[partner, logging, wildcard]" "''444''"]
      discovered_accounts [of True "initialRun exampleEnv" "[partner, logging, wildcard]" "[]"]
    by (simp add: i n)
qed

text \<open>
  C6 as stated fails for a node with an empty account ID: that ID is no key of the
  ledger, the vendor name is empty, and still no record is added.
\<close>

theorem discovered_accounts_counterexample:
  "analyzedAccounts (initialRun exampleEnv) (NodeAccountID wildcard) = None
   \<and> VendorName wildcard = []
   \<and> analyzedAccounts (insertVertex True (initialRun exampleEnv) wildcard) (NodeAccountID wildcard) = None"
  by (simp add: wildcard_def initialRun_def discoverAccount_def)


subsection \<open>One pmapper edge\<close>

lemma AddEdge_vertices: "AddEdge g s d opts = Inr g' \<Longrightarrow> vertices g' = vertices g"
  by (auto simp: AddEdge_def split: if_splits)

lemma UpdateEdge_vertices: "UpdateEdge g s d opts = Inr g' \<Longrightarrow> vertices g' = vertices g"
  by (auto simp: UpdateEdge_def split: option.splits)

lemma addPmapperEdge_vertices [simp]: "vertices (addPmapperEdge g e) = vertices g"
  by (auto simp: addPmapperEdge_def Let_def AddEdge_vertices UpdateEdge_vertices split: sum.splits)

lemma addPmapperEdge_missing:
  "map_of (vertices g) (EdgeSource e) = None \<or> map_of (vertices g) (Destination e) = None
   \<Longrightarrow> addPmapperEdge g e = g"
  by (auto simp: addPmapperEdge_def AddEdge_def)

lemma addPmapperEdge_new:
  "map_of (vertices g) (EdgeSource e) \<noteq> None \<Longrightarrow> map_of (vertices g) (Destination e) \<noteq> None
   \<Longrightarrow> map_of (edges g) (EdgeSource e, Destination e) = None
   \<Longrightarrow> edges (addPmapperEdge g e) =
         edges g @ [((EdgeSource e, Destination e), [(ShortReason e, Reason e)])]"
  by (auto simp: addPmapperEdge_def AddEdge_def EdgeAttribute_def)

lemma addPmapperEdge_existing:
  "map_of (vertices g) (EdgeSource e) \<noteq> None \<Longrightarrow> map_of (vertices g) (Destination e) \<noteq> None
   \<Longrightarrow> map_of (edges g) (EdgeSource e, Destination e) = Some a
   \<Longrightarrow> edges (addPmapperEdge g e) =
         AList.update (EdgeSource e, Destination e) (AList.update (ShortReason e) (Reason e) a) (edges g)"
  by (auto simp: addPmapperEdge_def AddEdge_def GetEdge_def UpdateEdge_def EdgeAttributes_def)

lemma addPmapperEdge_lookup:
  "map_of (vertices g) (EdgeSource e) \<noteq> None \<Longrightarrow> map_of (vertices g) (Destination e) \<noteq> None
   \<Longrightarrow> map_of (edges (addPmapperEdge g e)) =
         (map_of (edges g))((EdgeSource e, Destination e) \<mapsto>
            AList.update (ShortReason e) (Reason e)
              (case map_of (edges g) (EdgeSource e, Destination e) of None \<Rightarrow> [] | Some a \<Rightarrow> a))"
  by (cases "map_of (edges g) (EdgeSource e, Destination e)")
     (auto simp: addPmapperEdge_new addPmapperEdge_existing update_conv' map_of_append
           map_add_def intro!: ext split: option.splits)

lemma addPmapperEdge_keys:
  "map_of (vertices g) (EdgeSource e) \<noteq> None \<Longrightarrow> map_of (vertices g) (Destination e) \<noteq> None
   \<Longrightarrow> map fst (edges (addPmapperEdge g e)) =
         (if (EdgeSource e, Destination e) \<in> set (map fst (edges g)) then map fst (edges g)
          else map fst (edges g) @ [(EdgeSource e, Destination e)])"
  by (cases "map_of (edges g) (EdgeSource e, Destination e)")
     (auto simp: addPmapperEdge_new addPmapperEdge_existing update_keys map_of_eq_None_iff
           dest: map_of_SomeD weak_map_of_SomeI)

lemma addPmapperEdge_wellFormed: "wellFormed g \<Longrightarrow> wellFormed (addPmapperEdge g e)"
  by (cases "map_of (vertices g) (EdgeSource e) = None \<or> map_of (vertices g) (Destination e) = None")
     (auto simp: wellFormed_def addPmapperEdge_missing addPmapperEdge_keys)


lemma one_entry_per_key:
  "distinct (map fst xs) \<Longrightarrow> k \<in> set (map fst xs) \<Longrightarrow> length (filter (\<lambda>e. fst e = k) xs) = 1"
proof (induction xs)
  case Nil
  then show ?case by simp
next
  case (Cons x xs)
  show ?case
  proof (cases "fst x = k")
    case True
    with Cons.prems have "filter (\<lambda>e. fst e = k) xs = []"
      by (auto simp: filter_empty_conv image_iff)
    with True show ?thesis by simp
  next
    case False
    with Cons show ?thesis by auto
  qed
qed

text \<open>
  C4. In a graph that holds both ends as vertices, inserting the pair (source,
  destination) twice with two different reason codes, the way the loop over the pmapper
  edges does, makes \<^verbatim>\<open>AddEdge\<close> answer \<^verbatim>\<open>ErrEdgeAlreadyExists\<close> the second time; the graph
  then holds exactly one edge for the pair, its attribute map has both codes with their
  texts, every other edge is as before and so are the vertices.
\<close>

theorem edge_inserted_twice:
  assumes wf: "wellFormed g"
    and src: "map_of (vertices g) s \<noteq> None"
    and dst: "map_of (vertices g) d \<noteq> None"
    and codes: "c1 \<noteq> c2"
  shows "let g1 = addPmapperEdge g
                    \<lparr>EdgeSource = s, Destination = d, ShortReason = c1, Reason = r1\<rparr>;
             g2 = addPmapperEdge g1
                    \<lparr>EdgeSource = s, Destination = d, ShortReason = c2, Reason = r2\<rparr>
         in AddEdge g1 s d (EdgeAttribute c2 r2) = Inl ErrEdgeAlreadyExists
            \<and> length (filter (\<lambda>e. fst e = (s, d)) (edges g2)) = 1
            \<and> (\<exists>reasons. map_of (edges g2) (s, d) = Some reasons
                  \<and> map_of reasons c1 = Some r1 \<and> map_of reasons c2 = Some r2)
            \<and> (\<forall>pair. pair \<noteq> (s, d) \<longrightarrow> map_of (edges g2) pair = map_of (edges g) pair)
            \<and> vertices g2 = vertices g"
proof -
  define e1 where "e1 = \<lparr>EdgeSource = s, Destination = d, ShortReason = c1, Reason = r1\<rparr>"
  define e2 where "e2 = \<lparr>EdgeSource = s, Destination = d, ShortReason = c2, Reason = r2\<rparr>"
  define g1 where "g1 = addPmapperEdge g e1"
  define g2 where "g2 = addPmapperEdge g1 e2"
  define a0 where "a0 = (case map_of (edges g) (s, d) of None \<Rightarrow> [] | Some a \<Rightarrow> a)"
  have l1: "map_of (edges g1) = (map_of (edges g))((s, d) \<mapsto> AList.update c1 r1 a0)"
    using addPmapperEdge_lookup [of g e1] src dst by (simp add: g1_def e1_def a0_def)
  have v1: "vertices g1 = vertices g" by (simp add: g1_def)
  have l2: "map_of (edges g2) =
              (map_of (edges g))((s, d) \<mapsto> AList.update c2 r2 (AList.update c1 r1 a0))"
    using addPmapperEdge_lookup [of g1 e2] src dst by (simp add: g2_def e2_def v1 l1)
  have err: "AddEdge g1 s d (EdgeAttribute c2 r2) = Inl ErrEdgeAlreadyExists"
    using src dst by (simp add: AddEdge_def v1 l1)
  have wf2: "wellFormed g2"
    unfolding g2_def g1_def by (intro addPmapperEdge_wellFormed wf)
  have "map_of (edges g2) (s, d) \<noteq> None" by (simp add: l2)
  then have "(s, d) \<in> set (map fst (edges g2))"
    by (simp add: map_of_eq_None_iff)
  with wf2 have one: "length (filter (\<lambda>e. fst e = (s, d)) (edges g2)) = 1"
    by (intro one_entry_per_key) (simp_all add: wellFormed_def)
  have both: "map_of (AList.update c2 r2 (AList.update c1 r1 a0)) c1 = Some r1"
             "map_of (AList.update c2 r2 (AList.update c1 r1 a0)) c2 = Some r2"
    using codes by (simp_all add: update_conv')
  have rest: "\<forall>pair. pair \<noteq> (s, d) \<longrightarrow> map_of (edges g2) pair = map_of (edges g) pair"
    by (simp add: l2)
  have v2: "vertices g2 = vertices g" by (simp add: g2_def v1)
  show ?thesis
    using err one both rest v2 l2
    unfolding g2_def g1_def e1_def e2_def Let_def
    by simp
qed


text \<open>
  Witness for C4: the two pmapper edges of the small run, both from alice to the admin
  role, inserted into the graph of these two vertices.
\<close>

theorem edge_inserted_twice_witness:
  "wellFormed twoVertices
   \<and> map_of (vertices twoVertices) (Arn alice) \<noteq> None
   \<and> map_of (vertices twoVertices) (Arn admin) \<noteq> None
   \<and> ''sts:AssumeRole'' \<noteq> ''iam:PassRole''
   \<and> length (filter (\<lambda>e. fst e = (Arn alice, Arn admin))
        (edges (addPmapperEdge
           (addPmapperEdge twoVertices
              \<lparr>EdgeSource = Arn alice, Destination = Arn admin,
               ShortReason = ''sts:AssumeRole'', Reason = ''can call sts:AssumeRole''\<rparr>)
           \<lparr>EdgeSource = Arn alice, Destination = Arn admin,
            ShortReason = ''iam:PassRole'', Reason = ''can pass the role to EC2''\<rparr>))) = 1
   \<and> edges (foldl addPmapperEdge twoVertices (Edges devPmapper)) =
       [((Arn alice, Arn admin),
         [(''sts:AssumeRole'', ''can call sts:AssumeRole''),
          (''iam:PassRole'', ''can pass the role to EC2'')])]"
proof -
  have h: "wellFormed twoVertices"
    "map_of (vertices twoVertices) (Arn alice) \<noteq> None"
    "map_of (vertices twoVertices) (Arn admin) \<noteq> None"
    "''sts:AssumeRole'' \<noteq> ''iam:PassRole''"
    by code_simp+
  have e: "edges (foldl addPmapperEdge twoVertices (Edges devPmapper)) =
       [((Arn alice, Arn admin),
         [(''sts:AssumeRole'', ''can call sts:AssumeRole''),
          (''iam:PassRole'', ''can pass the role to EC2'')])]"
    by code_simp
  from edge_inserted_twice [OF h, of "''can call sts:AssumeRole''" "''can pass the role to EC2''"]
  have "length (filter (\<lambda>e. fst e = (Arn alice, Arn admin))
        (edges (addPmapperEdge
           (addPmapperEdge twoVertices
              \<lparr>EdgeSource = Arn alice, Destination = Arn admin,
               ShortReason = ''sts:AssumeRole'', Reason = ''can call sts:AssumeRole''\<rparr>)
           \<lparr>EdgeSource = Arn alice, Destination = Arn admin,
            ShortReason = ''iam:PassRole'', Reason = ''can pass the role to EC2''\<rparr>))) = 1"
    by (simp add: Let_def)
  with h e show ?thesis by blast
qed

subsection \<open>Vertices\<close>

lemma graph_insertVertex:
  "GlobalGraph (insertVertex b st node) =
     (if map_of (vertices (GlobalGraph st)) (Arn node) \<noteq> None then GlobalGraph st
      else (GlobalGraph st)\<lparr>vertices := vertices (GlobalGraph st) @ [(Arn node, vertexOptions node [])]\<rparr>)"
  by (simp add: insertVertex_def AddVertex_def)

lemma edges_insertVertex [simp]:
  "edges (GlobalGraph (insertVertex b st node)) = edges (GlobalGraph st)"
  by (simp add: graph_insertVertex)

lemma edges_insertVertices [simp]:
  "edges (GlobalGraph (foldl (insertVertex b) st nodes)) = edges (GlobalGraph st)"
  by (induction nodes arbitrary: st) simp_all

lemma vertices_insertVertices:
  "distinct (map Arn nodes)
   \<Longrightarrow> \<forall>node \<in> set nodes. map_of (vertices (GlobalGraph st)) (Arn node) = None
   \<Longrightarrow> vertices (GlobalGraph (foldl (insertVertex b) st nodes)) =
         vertices (GlobalGraph st) @ map (\<lambda>node. (Arn node, vertexOptions node [])) nodes"
proof (induction nodes arbitrary: st)
  case Nil
  then show ?case by simp
next
  case (Cons n nodes)
  have g: "GlobalGraph (insertVertex b st n) =
             (GlobalGraph st)\<lparr>vertices := vertices (GlobalGraph st) @ [(Arn n, vertexOptions n [])]\<rparr>"
    using Cons.prems(2) by (simp add: graph_insertVertex)
  have "\<forall>node \<in> set nodes. map_of (vertices (GlobalGraph (insertVertex b st n))) (Arn node) = None"
    using Cons.prems by (auto simp: g map_add_def image_iff split: option.splits)
  with Cons.prems(1) have
    "vertices (GlobalGraph (foldl (insertVertex b) (insertVertex b st n) nodes)) =
       vertices (GlobalGraph (insertVertex b st n)) @ map (\<lambda>node. (Arn node, vertexOptions node [])) nodes"
    by (intro Cons.IH) simp_all
  then show ?case by (simp add: g)
qed

lemma other_fields_insertVertices [simp]:
  "mergedNodes (foldl (insertVertex b) st nodes) = mergedNodes st"
  "GlobalNodes (foldl (insertVertex b) st nodes) = GlobalNodes st"
  "GlobalPmapperEdges (foldl (insertVertex b) st nodes) = GlobalPmapperEdges st"
  "calls (foldl (insertVertex b) st nodes) = calls st @ map CallAddVertex nodes"
  by (induction nodes arbitrary: st) (simp_all add: insertVertex_def)

subsection \<open>Node merge\<close>

lemma Arn_mergeNodeData [simp]: "Arn (mergeNodeData risk existing new) = Arn existing"
  by (simp add: mergeNodeData_def)

lemma Arn_mergeInto:
  "map Arn (mergeInto risk groups node) =
     (if Arn node \<in> set (map Arn groups) then map Arn groups else map Arn groups @ [Arn node])"
  by (induction groups) auto

lemma Arn_mergeNodes_fold:
  "distinct (map Arn acc) \<Longrightarrow>
     distinct (map Arn (foldl (mergeInto risk) acc nodes))
     \<and> set (map Arn (foldl (mergeInto risk) acc nodes)) = set (map Arn acc) \<union> set (map Arn nodes)"
proof (induction nodes arbitrary: acc)
  case Nil
  then show ?case by simp
next
  case (Cons n nodes)
  have d: "distinct (map Arn (mergeInto risk acc n))"
    using Cons.prems by (simp add: Arn_mergeInto)
  have s: "set (map Arn (mergeInto risk acc n)) = insert (Arn n) (set (map Arn acc))"
    by (auto simp: Arn_mergeInto)
  show ?case
    using Cons.IH [OF d] s by auto
qed

lemma Arn_mergeNodes:
  "distinct (map Arn (mergeNodes risk nodes))"
  "set (map Arn (mergeNodes risk nodes)) = set (map Arn nodes)"
  using Arn_mergeNodes_fold [of "[]" risk nodes] by (simp_all add: mergeNodes_def)

subsection \<open>What the three loops leave alone\<close>

lemma registerProfile_frame [simp]:
  "pmapperData (registerProfile env st p) = pmapperData st"
  "unread (registerProfile env st p) = unread st"
  "GlobalNodes (registerProfile env st p) = GlobalNodes st"
  "GlobalPmapperEdges (registerProfile env st p) = GlobalPmapperEdges st"
  "GlobalGraph (registerProfile env st p) = GlobalGraph st"
  "calls (registerProfile env st p) = calls st"
  by (simp_all add: registerProfile_def split: option.splits)

lemma registerProfiles_frame [simp]:
  "pmapperData (foldl (registerProfile env) st ps) = pmapperData st"
  "unread (foldl (registerProfile env) st ps) = unread st"
  "GlobalNodes (foldl (registerProfile env) st ps) = GlobalNodes st"
  "GlobalPmapperEdges (foldl (registerProfile env) st ps) = GlobalPmapperEdges st"
  "GlobalGraph (foldl (registerProfile env) st ps) = GlobalGraph st"
  "calls (foldl (registerProfile env) st ps) = calls st"
  by (induction ps arbitrary: st) simp_all

lemma importPmapperData_frame:
  "importPmapperData env ps st = Inr st' \<Longrightarrow>
     GlobalNodes st' = GlobalNodes st \<and> GlobalPmapperEdges st' = GlobalPmapperEdges st
     \<and> GlobalGraph st' = GlobalGraph st \<and> calls st' = calls st"
proof (induction ps arbitrary: st)
  case Nil
  then show ?case by simp
next
  case (Cons p ps)
  show ?case
  proof (cases "AWSWhoami env p")
    case None
    with Cons show ?thesis by simp
  next
    case (Some caller)
    show ?thesis
    proof (cases "InitPmapperGraph env caller (AWSProfile env)")
      case (Inr m)
      with Some Cons.prems
      have "importPmapperData env ps (st\<lparr>pmapperData := (pmapperData st)(p \<mapsto> m)\<rparr>) = Inr st'"
        by simp
      from Cons.IH [OF this] show ?thesis by simp
    next
      case (Inl err)
      with Some Cons.prems show ?thesis
        by (auto simp: Let_def split: if_splits dest!: Cons.IH)
    qed
  qed
qed

lemma importPmapperData_exit:
  "importPmapperData env ps st = Inl (OsExit code st') \<Longrightarrow>
     code = 1 \<and> GlobalGraph st' = GlobalGraph st \<and> calls st' = calls st"
proof (induction ps arbitrary: st)
  case Nil
  then show ?case by simp
next
  case (Cons p ps)
  show ?case
  proof (cases "AWSWhoami env p")
    case None
    with Cons show ?thesis by simp
  next
    case (Some caller)
    show ?thesis
    proof (cases "InitPmapperGraph env caller (AWSProfile env)")
      case (Inr m)
      with Some Cons.prems
      have "importPmapperData env ps (st\<lparr>pmapperData := (pmapperData st)(p \<mapsto> m)\<rparr>) = Inl (OsExit code st')"
        by simp
      from Cons.IH [OF this] show ?thesis by simp
    next
      case (Inl err)
      with Some Cons.prems show ?thesis
        by (auto simp: Let_def split: if_splits dest!: Cons.IH)
    qed
  qed
qed

lemma addRoles_frame [simp]:
  "analyzedAccounts (foldl (addRole env) st rs) = analyzedAccounts st"
  "pmapperData (foldl (addRole env) st rs) = pmapperData st"
  "GlobalPmapperEdges (foldl (addRole env) st rs) = GlobalPmapperEdges st"
  "GlobalGraph (foldl (addRole env) st rs) = GlobalGraph st"
  "calls (foldl (addRole env) st rs) = calls st"
  by (induction rs arbitrary: st) (simp_all add: addRole_def Let_def)

lemma addRoles_nodes: "set (GlobalNodes st) \<subseteq> set (GlobalNodes (foldl (addRole env) st rs))"
proof (induction rs arbitrary: st)
  case Nil
  then show ?case by simp
next
  case (Cons r rs)
  have "set (GlobalNodes st) \<subseteq> set (GlobalNodes (addRole env st r))"
    by (auto simp: addRole_def Let_def)
  with Cons.IH [of "addRole env st r"] show ?case by auto
qed

lemma addUsers_frame [simp]:
  "analyzedAccounts (foldl (addUser env) st us) = analyzedAccounts st"
  "pmapperData (foldl (addUser env) st us) = pmapperData st"
  "GlobalPmapperEdges (foldl (addUser env) st us) = GlobalPmapperEdges st"
  "GlobalGraph (foldl (addUser env) st us) = GlobalGraph st"
  "calls (foldl (addUser env) st us) = calls st"
  "GlobalNodes (foldl (addUser env) st us) = GlobalNodes st @ map (ConvertIAMUserToNode env) us"
  by (induction us arbitrary: st) (simp_all add: addUser_def)

lemma gatherPermissions_frame [simp]:
  "pmapperData (gatherPermissions env st p acct) = pmapperData st"
  "GlobalNodes (gatherPermissions env st p acct) = GlobalNodes st"
  "GlobalPmapperEdges (gatherPermissions env st p acct) = GlobalPmapperEdges st"
  "GlobalGraph (gatherPermissions env st p acct) = GlobalGraph st"
  "calls (gatherPermissions env st p acct) = calls st"
  by (simp_all add: gatherPermissions_def split: option.splits)

lemma pmapperModOf_gatherPermissions [simp]:
  "pmapperModOf (gatherPermissions env st p acct) q = pmapperModOf st q"
  by (simp add: pmapperModOf_def)

lemma collectProfile_frame [simp]:
  "pmapperData (collectProfile env st p) = pmapperData st"
  "GlobalGraph (collectProfile env st p) = GlobalGraph st"
  "calls (collectProfile env st p) = calls st"
  by (simp_all add: collectProfile_def Let_def split: option.splits)

lemma collectProfiles_frame [simp]:
  "pmapperData (foldl (collectProfile env) st ps) = pmapperData st"
  "GlobalGraph (foldl (collectProfile env) st ps) = GlobalGraph st"
  "calls (foldl (collectProfile env) st ps) = calls st"
  by (induction ps arbitrary: st) simp_all

lemma collectProfile_ledger:
  "analyzedAccounts (collectProfile env st p) =
     (if permissionsFail env p then (analyzedAccounts st)(the (accountOf env p) \<mapsto> failedAccount)
      else analyzedAccounts st)"
  by (simp add: collectProfile_def Let_def permissionsFail_def accountOf_def gatherPermissions_def
           split: option.splits)

lemma collectProfile_edges:
  "GlobalPmapperEdges (collectProfile env st p) =
     (case AWSWhoami env p of None \<Rightarrow> GlobalPmapperEdges st
      | Some c \<Rightarrow> GlobalPmapperEdges st @ Edges (pmapperModOf st p))"
  by (simp add: collectProfile_def Let_def split: option.splits)

lemma collectProfile_nodes:
  "set (GlobalNodes st) \<subseteq> set (GlobalNodes (collectProfile env st p))"
  "AWSWhoami env p = Some c \<Longrightarrow> set (Nodes (pmapperModOf st p)) \<subseteq> set (GlobalNodes (collectProfile env st p))"
proof -
  show "set (GlobalNodes st) \<subseteq> set (GlobalNodes (collectProfile env st p))"
  proof (cases "AWSWhoami env p")
    case None
    then show ?thesis by (simp add: collectProfile_def)
  next
    case (Some caller)
    then show ?thesis
      using addRoles_nodes [of "(gatherPermissions env st p (ptr_ToString (Account caller)))
          \<lparr>GlobalNodes := GlobalNodes st @ Nodes (pmapperModOf st p),
            GlobalPmapperEdges := GlobalPmapperEdges st @ Edges (pmapperModOf st p)\<rparr>" env
          "CachedIamListRoles env p (ptr_ToString (Account caller))"]
      by (auto simp: collectProfile_def Let_def)
  qed
  show "set (Nodes (pmapperModOf st p)) \<subseteq> set (GlobalNodes (collectProfile env st p))"
    if "AWSWhoami env p = Some c"
    using that
      addRoles_nodes [of "(gatherPermissions env st p (ptr_ToString (Account c)))
          \<lparr>GlobalNodes := GlobalNodes st @ Nodes (pmapperModOf st p),
            GlobalPmapperEdges := GlobalPmapperEdges st @ Edges (pmapperModOf st p)\<rparr>" env
          "CachedIamListRoles env p (ptr_ToString (Account c))"]
    by (auto simp: collectProfile_def Let_def)
qed

subsection \<open>The ledger and the collected nodes after the three loops\<close>

lemma registerProfiles_keys:
  "analyzedAccounts (foldl (registerProfile env) st ps) acct \<noteq> None \<Longrightarrow>
     analyzedAccounts st acct \<noteq> None \<or> (\<exists>p \<in> set ps. accountOf env p = Some acct)"
proof (induction ps arbitrary: st)
  case Nil
  then show ?case by simp
next
  case (Cons p ps)
  from Cons.IH [of "registerProfile env st p"] Cons.prems
  have "analyzedAccounts (registerProfile env st p) acct \<noteq> None \<or> (\<exists>p \<in> set ps. accountOf env p = Some acct)"
    by simp
  then show ?case
    by (auto simp: registerProfile_def accountOf_def split: option.splits if_splits)
qed

lemma importPmapperData_ledger:
  "importPmapperData env ps st = Inr st' \<Longrightarrow>
     analyzedAccounts st' acct =
       (if \<exists>p \<in> set ps. accountOf env p = Some acct \<and> pmapperFails env p then Some failedAccount
        else analyzedAccounts st acct)"
proof (induction ps arbitrary: st)
  case Nil
  then show ?case by simp
next
  case (Cons p ps)
  show ?case
  proof (cases "AWSWhoami env p")
    case None
    then have "\<not> pmapperFails env p" by (simp add: pmapperFails_def)
    with None Cons show ?thesis by simp
  next
    case (Some caller)
    have a: "accountOf env p = Some (ptr_ToString (Account caller))"
      using Some by (simp add: accountOf_def)
    show ?thesis
    proof (cases "InitPmapperGraph env caller (AWSProfile env)")
      case (Inr m)
      then have np: "\<not> pmapperFails env p" using Some by (simp add: pmapperFails_def)
      from Some Inr Cons.prems
      have "importPmapperData env ps (st\<lparr>pmapperData := (pmapperData st)(p \<mapsto> m)\<rparr>) = Inr st'"
        by simp
      from Cons.IH [OF this] have
        "analyzedAccounts st' acct =
           (if \<exists>p \<in> set ps. accountOf env p = Some acct \<and> pmapperFails env p then Some failedAccount
            else analyzedAccounts st acct)"
        by auto
      with np show ?thesis by simp
    next
      case (Inl err)
      then have f: "pmapperFails env p" using Some by (simp add: pmapperFails_def)
      from Some Inl Cons.prems
      have "importPmapperData env ps
              (st\<lparr>analyzedAccounts := (analyzedAccounts st)(ptr_ToString (Account caller) \<mapsto> failedAccount),
                  unread := snd (Scanln (unread st))\<rparr>) = Inr st'"
        by (simp add: Let_def split: if_splits)
      from Cons.IH [OF this] have
        "analyzedAccounts st' acct =
           (if \<exists>p \<in> set ps. accountOf env p = Some acct \<and> pmapperFails env p then Some failedAccount
            else ((analyzedAccounts st)(ptr_ToString (Account caller) \<mapsto> failedAccount)) acct)"
        by auto
      with f a show ?thesis by auto
    qed
  qed
qed

lemma importPmapperData_modules:
  "importPmapperData env ps st = Inr st' \<Longrightarrow>
     pmapperData st' q =
       (if q \<in> set ps \<and> importedModule env q \<noteq> None then importedModule env q
        else pmapperData st q)"
proof (induction ps arbitrary: st)
  case Nil
  then show ?case by simp
next
  case (Cons p ps)
  show ?case
  proof (cases "AWSWhoami env p")
    case None
    with Cons show ?thesis by (auto simp: importedModule_def)
  next
    case (Some caller)
    show ?thesis
    proof (cases "InitPmapperGraph env caller (AWSProfile env)")
      case (Inr m)
      with Some Cons.prems
      have "importPmapperData env ps (st\<lparr>pmapperData := (pmapperData st)(p \<mapsto> m)\<rparr>) = Inr st'"
        by simp
      from Cons.IH [OF this] Some Inr show ?thesis
        by (auto simp: importedModule_def)
    next
      case (Inl err)
      with Some Cons.prems
      have "importPmapperData env ps
              (st\<lparr>analyzedAccounts := (analyzedAccounts st)(ptr_ToString (Account caller) \<mapsto> failedAccount),
                  unread := snd (Scanln (unread st))\<rparr>) = Inr st'"
        by (simp add: Let_def split: if_splits)
      from Cons.IH [OF this] Some Inl show ?thesis
        by (auto simp: importedModule_def)
    qed
  qed
qed

lemma take_padded: "take n (xs @ replicate (Suc n) v) = take n (xs @ replicate n v)"
  by (simp del: replicate.simps add: min_def)

lemma importPmapperData_exits:
  "isl (importPmapperData env ps st) =
     (\<exists>a \<in> set (take (length (filter (pmapperFails env) ps))
                  (unread st @ replicate (length (filter (pmapperFails env) ps)) [])). a \<noteq> ''y'')"
proof (induction ps arbitrary: st)
  case Nil
  then show ?case by simp
next
  case (Cons p ps)
  show ?case
  proof (cases "pmapperFails env p")
    case False
    then show ?thesis
      using Cons.IH [of st]
            Cons.IH [of "st\<lparr>pmapperData := (pmapperData st)(p \<mapsto> m)\<rparr>" for m]
      by (auto simp: pmapperFails_def split: option.splits sum.splits)
  next
    case True
    then obtain caller err where c: "AWSWhoami env p = Some caller"
        "InitPmapperGraph env caller (AWSProfile env) = Inl err"
      by (auto simp: pmapperFails_def isl_def split: option.splits)
    define n where "n = length (filter (pmapperFails env) ps)"
    define L where "L = (analyzedAccounts st)(ptr_ToString (Account caller) \<mapsto> failedAccount)"
    show ?thesis
    proof (cases "unread st")
      case Nil
      then show ?thesis
        using True c by (simp add: Scanln_def Let_def)
    next
      case (Cons a as)
      have ih: "isl (importPmapperData env ps (st\<lparr>analyzedAccounts := L, unread := as\<rparr>)) =
                  (\<exists>a \<in> set (take n (as @ replicate n [])). a \<noteq> ''y'')"
        using Cons.IH [of "st\<lparr>analyzedAccounts := L, unread := as\<rparr>"] by (simp add: n_def)
      have lhs: "isl (importPmapperData env (p # ps) st) =
                   (a \<noteq> ''y'' \<or> isl (importPmapperData env ps (st\<lparr>analyzedAccounts := L, unread := as\<rparr>)))"
        using c Cons by (simp add: Scanln_def Let_def L_def)
      have len: "length (filter (pmapperFails env) (p # ps)) = Suc n"
        using True by (simp add: n_def)
      have t: "take (Suc n) ((a # as) @ replicate (Suc n) []) = a # take n (as @ replicate n [])"
        by (simp only: append_Cons take_Suc_Cons take_padded)
      show ?thesis
        unfolding lhs ih len Cons t by simp
    qed
  qed
qed

lemma collectProfiles_ledger:
  "analyzedAccounts (foldl (collectProfile env) st ps) acct =
     (if \<exists>p \<in> set ps. accountOf env p = Some acct \<and> permissionsFail env p then Some failedAccount
      else analyzedAccounts st acct)"
proof (induction ps arbitrary: st)
  case Nil
  then show ?case by simp
next
  case (Cons p ps)
  have "permissionsFail env p \<Longrightarrow> accountOf env p \<noteq> None"
    by (auto simp: permissionsFail_def accountOf_def split: option.splits)
  then show ?case
    unfolding foldl_Cons Cons.IH by (auto simp: collectProfile_ledger)
qed

lemma pmapperModOf_collectProfile [simp]:
  "pmapperModOf (collectProfile env st p) q = pmapperModOf st q"
  by (simp add: pmapperModOf_def)

lemma collectProfiles_nodes_mono:
  "set (GlobalNodes st) \<subseteq> set (GlobalNodes (foldl (collectProfile env) st ps))"
proof (induction ps arbitrary: st)
  case Nil
  then show ?case by simp
next
  case (Cons p ps)
  show ?case
    using collectProfile_nodes(1) [of st env p] Cons.IH [of "collectProfile env st p"] by auto
qed

lemma collectProfiles_edges_mono:
  "set (GlobalPmapperEdges st) \<subseteq> set (GlobalPmapperEdges (foldl (collectProfile env) st ps))"
proof (induction ps arbitrary: st)
  case Nil
  then show ?case by simp
next
  case (Cons p ps)
  have "set (GlobalPmapperEdges st) \<subseteq> set (GlobalPmapperEdges (collectProfile env st p))"
    by (auto simp: collectProfile_edges split: option.splits)
  with Cons.IH [of "collectProfile env st p"] show ?case by auto
qed

lemma collectProfiles_imported:
  "p \<in> set ps \<Longrightarrow> AWSWhoami env p = Some c \<Longrightarrow>
     set (Nodes (pmapperModOf st p)) \<subseteq> set (GlobalNodes (foldl (collectProfile env) st ps))
     \<and> set (Edges (pmapperModOf st p)) \<subseteq> set (GlobalPmapperEdges (foldl (collectProfile env) st ps))"
proof (induction ps arbitrary: st)
  case Nil
  then show ?case by simp
next
  case (Cons q ps)
  show ?case
  proof (cases "q = p")
    case True
    have "set (Nodes (pmapperModOf st p)) \<subseteq> set (GlobalNodes (collectProfile env st p))"
      using collectProfile_nodes(2) [OF Cons.prems(2)] .
    moreover have "set (Edges (pmapperModOf st p)) \<subseteq> set (GlobalPmapperEdges (collectProfile env st p))"
      using Cons.prems(2) by (simp add: collectProfile_edges)
    ultimately show ?thesis
      using collectProfiles_nodes_mono [of "collectProfile env st p" env ps]
            collectProfiles_edges_mono [of "collectProfile env st p" env ps] True
      by auto
  next
    case False
    with Cons.prems have "p \<in> set ps" by simp
    from Cons.IH [OF this Cons.prems(2), of "collectProfile env st q"] show ?thesis by simp
  qed
qed

subsection \<open>The assembly\<close>

lemma makeVertices_fields [simp]:
  "calls (makeVertices env st) =
     calls st @ CallMergeNodes (GlobalNodes st) # map CallAddVertex (MergeNodes env (GlobalNodes st))"
  "mergedNodes (makeVertices env st) = MergeNodes env (GlobalNodes st)"
  "GlobalNodes (makeVertices env st) = GlobalNodes st"
  "GlobalPmapperEdges (makeVertices env st) = GlobalPmapperEdges st"
  "edges (GlobalGraph (makeVertices env st)) = edges (GlobalGraph st)"
  "analyzedAccounts (makeVertices env st) =
     foldl (discoverAccount (CapeAdminOnly env)) (analyzedAccounts st) (MergeNodes env (GlobalNodes st))"
  by (simp_all add: makeVertices_def Let_def ledger_insertVertices)

lemma applyArnIgnoreList_fields [simp]:
  "calls (applyArnIgnoreList env st) = calls st"
  "mergedNodes (applyArnIgnoreList env st) = mergedNodes st"
  "GlobalNodes (applyArnIgnoreList env st) = GlobalNodes st"
  "GlobalPmapperEdges (applyArnIgnoreList env st) = GlobalPmapperEdges st"
  "analyzedAccounts (applyArnIgnoreList env st) = analyzedAccounts st"
  by (simp_all add: applyArnIgnoreList_def)

lemma makePmapperEdges_fields [simp]:
  "calls (makePmapperEdges st) = calls st"
  "mergedNodes (makePmapperEdges st) = mergedNodes st"
  "GlobalNodes (makePmapperEdges st) = GlobalNodes st"
  "GlobalPmapperEdges (makePmapperEdges st) = GlobalPmapperEdges st"
  "analyzedAccounts (makePmapperEdges st) = analyzedAccounts st"
  by (simp_all add: makePmapperEdges_def)

lemma makeRoleEdges_fields [simp]:
  "calls (makeRoleEdges env st) = calls st"
  "mergedNodes (makeRoleEdges env st) = mergedNodes st"
  "GlobalNodes (makeRoleEdges env st) = GlobalNodes st"
  "GlobalPmapperEdges (makeRoleEdges env st) = GlobalPmapperEdges st"
  "analyzedAccounts (makeRoleEdges env st) = analyzedAccounts st"
  by (simp_all add: makeRoleEdges_def)

lemma run_returns:
  "runCapeCommand env = Inr st \<Longrightarrow>
     \<exists>st2. importPmapperData env (AWSProfiles env)
              (foldl (registerProfile env) (initialRun env) (AWSProfiles env)) = Inr st2
         \<and> st = assemble env (collectAll env st2)"
  by (auto simp: runCapeCommand_def split: sum.splits)

lemma run_exits:
  "runCapeCommand env = Inl e \<Longrightarrow>
     importPmapperData env (AWSProfiles env)
       (foldl (registerProfile env) (initialRun env) (AWSProfiles env)) = Inl e"
  by (auto simp: runCapeCommand_def split: sum.splits)

lemma failedIn_iff:
  "failedIn env acct \<longleftrightarrow>
     (\<exists>p \<in> set (AWSProfiles env). accountOf env p = Some acct \<and> pmapperFails env p)
     \<or> (\<exists>p \<in> set (AWSProfiles env). accountOf env p = Some acct \<and> permissionsFail env p)"
  by (auto simp: failedIn_def list_ex_iff)

lemma final_ledger:
  assumes "runCapeCommand env = Inr st"
  shows "analyzedAccounts st acct =
     (if failedIn env acct then Some failedAccount
      else case registered env acct of
             Some r \<Rightarrow> Some r
           | None \<Rightarrow>
               if acct \<noteq> [] \<and> (\<exists>n \<in> set (mergedNodes st). NodeAccountID n = acct \<and> VendorName n = [])
               then Some (discoveredAccount (CapeAdminOnly env) acct) else None)"
proof -
  obtain st2 where st2: "importPmapperData env (AWSProfiles env)
              (foldl (registerProfile env) (initialRun env) (AWSProfiles env)) = Inr st2"
    and st: "st = assemble env (collectAll env st2)"
    using run_returns [OF assms] by blast
  define st3 where "st3 = collectAll env st2"
  have l2: "analyzedAccounts st2 acct =
       (if \<exists>p \<in> set (AWSProfiles env). accountOf env p = Some acct \<and> pmapperFails env p
        then Some failedAccount else registered env acct)"
    using importPmapperData_ledger [OF st2, of acct] by (auto simp: registered_def)
  have l3: "analyzedAccounts st3 acct = (if failedIn env acct then Some failedAccount else registered env acct)"
    unfolding st3_def collectAll_def collectProfiles_ledger l2 failedIn_iff by auto
  have m: "mergedNodes st = MergeNodes env (GlobalNodes st3)"
    by (simp add: st assemble_def st3_def)
  have "analyzedAccounts st acct =
          foldl (discoverAccount (CapeAdminOnly env)) (analyzedAccounts st3) (MergeNodes env (GlobalNodes st3)) acct"
    by (simp add: st assemble_def st3_def)
  then show ?thesis
    unfolding discoverAccount_fold l3 m by (simp add: failedAccount_def)
qed

subsection \<open>The ignore list and the edges\<close>

lemma removeIgnored_no_edges:
  "edges g = [] \<Longrightarrow> removeIgnored g arn = g\<lparr>vertices := AList.delete arn (vertices g)\<rparr>"
proof (cases "map_of (vertices g) arn")
  case None
  assume "edges g = []"
  from None have "arn \<notin> fst ` set (vertices g)" by (simp add: map_of_eq_None_iff)
  then have "AList.delete arn (vertices g) = vertices g" by simp
  with None show ?thesis by (simp add: removeIgnored_def RemoveVertex_def)
next
  case (Some a)
  assume "edges g = []"
  with Some show ?thesis by (simp add: removeIgnored_def RemoveVertex_def hasEdges_def)
qed

lemma removeIgnored_fold:
  "edges g = [] \<Longrightarrow>
     edges (foldl removeIgnored g arns) = []
     \<and> map_of (vertices (foldl removeIgnored g arns)) = (\<lambda>k. if k \<in> set arns then None else map_of (vertices g) k)"
proof (induction arns arbitrary: g)
  case Nil
  then show ?case by simp
next
  case (Cons a arns)
  have r: "removeIgnored g a = g\<lparr>vertices := AList.delete a (vertices g)\<rparr>"
    using Cons.prems by (rule removeIgnored_no_edges)
  have "edges (removeIgnored g a) = []" using Cons.prems by (simp add: r)
  from Cons.IH [OF this] show ?case
    by (auto simp: r delete_conv')
qed

lemma removeIgnored_wellFormed: "wellFormed g \<Longrightarrow> wellFormed (removeIgnored g arn)"
  by (auto simp: removeIgnored_def RemoveVertex_def wellFormed_def distinct_delete split: sum.splits)

lemma insertVertex_wellFormed:
  "wellFormed (GlobalGraph st) \<Longrightarrow> wellFormed (GlobalGraph (insertVertex b st node))"
  by (auto simp: graph_insertVertex wellFormed_def map_of_eq_None_iff)

lemma insertVertices_wellFormed:
  "wellFormed (GlobalGraph st) \<Longrightarrow> wellFormed (GlobalGraph (foldl (insertVertex b) st nodes))"
  by (induction nodes arbitrary: st) (simp_all add: insertVertex_wellFormed)

lemma removeIgnored_fold_wellFormed: "wellFormed g \<Longrightarrow> wellFormed (foldl removeIgnored g arns)"
  by (induction arns arbitrary: g) (simp_all add: removeIgnored_wellFormed)

lemma addPmapperEdges_wellFormed: "wellFormed g \<Longrightarrow> wellFormed (foldl addPmapperEdge g es)"
  by (induction es arbitrary: g) (simp_all add: addPmapperEdge_wellFormed)

text \<open>
  The graph that the loop over the pmapper edges builds from the empty one holds each
  vertex and each ordered pair once.
\<close>

lemma pmapper_graph_wellFormed:
  assumes "GlobalGraph st = emptyGraph"
  shows "wellFormed (GlobalGraph (makePmapperEdges (applyArnIgnoreList env (makeVertices env st))))"
proof -
  have "wellFormed (GlobalGraph (makeVertices env st))"
    unfolding makeVertices_def Let_def
    by (rule insertVertices_wellFormed) (simp add: assms emptyGraph_def wellFormed_def)
  then have "wellFormed (GlobalGraph (applyArnIgnoreList env (makeVertices env st)))"
    by (simp add: applyArnIgnoreList_def removeIgnored_fold_wellFormed)
  then show ?thesis
    by (simp add: makePmapperEdges_def addPmapperEdges_wellFormed)
qed

lemma addPmapperEdges_vertices [simp]: "vertices (foldl addPmapperEdge g es) = vertices g"
  by (induction es arbitrary: g) simp_all

lemma addPmapperEdge_closed: "edgesClosed g \<Longrightarrow> edgesClosed (addPmapperEdge g e)"
proof (cases "map_of (vertices g) (EdgeSource e) = None \<or> map_of (vertices g) (Destination e) = None")
  case True
  assume "edgesClosed g"
  with True show ?thesis by (simp add: addPmapperEdge_missing)
next
  case False
  assume c: "edgesClosed g"
  from False have sd: "map_of (vertices g) (EdgeSource e) \<noteq> None" "map_of (vertices g) (Destination e) \<noteq> None"
    by simp_all
  have "set (map fst (edges (addPmapperEdge g e))) \<subseteq>
          insert (EdgeSource e, Destination e) (set (map fst (edges g)))"
    unfolding addPmapperEdge_keys [OF sd] by auto
  then have keys: "fst x = (EdgeSource e, Destination e) \<or> fst x \<in> fst ` set (edges g)"
    if "x \<in> set (edges (addPmapperEdge g e))" for x
    using that by auto
  show ?thesis
    unfolding edgesClosed_def list_all_iff
  proof
    fix x assume "x \<in> set (edges (addPmapperEdge g e))"
    from keys [OF this] show "map_of (vertices (addPmapperEdge g e)) (fst (fst x)) \<noteq> None \<and>
          map_of (vertices (addPmapperEdge g e)) (snd (fst x)) \<noteq> None"
    proof
      assume "fst x = (EdgeSource e, Destination e)"
      with sd show ?thesis by simp
    next
      assume "fst x \<in> fst ` set (edges g)"
      then obtain y where "y \<in> set (edges g)" "fst y = fst x" by auto
      with c show ?thesis by (auto simp: edgesClosed_def list_all_iff)
    qed
  qed
qed

lemma addPmapperEdges_closed: "edgesClosed g \<Longrightarrow> edgesClosed (foldl addPmapperEdge g es)"
  by (induction es arbitrary: g) (simp_all add: addPmapperEdge_closed)

subsection \<open>One vertex for each ARN\<close>

lemma removeIgnored_fold_vertices:
  "edges g = [] \<Longrightarrow>
     vertices (foldl removeIgnored g arns) = filter (\<lambda>v. fst v \<notin> set arns) (vertices g)"
proof (induction arns arbitrary: g)
  case Nil
  then show ?case by simp
next
  case (Cons a arns)
  have r: "removeIgnored g a = g\<lparr>vertices := AList.delete a (vertices g)\<rparr>"
    using Cons.prems by (rule removeIgnored_no_edges)
  have "edges (removeIgnored g a) = []" using Cons.prems by (simp add: r)
  from Cons.IH [OF this] show ?case
    by (auto simp: r AList.delete_eq intro: filter_cong)
qed

text \<open>
  C8, as amended. The merge returns one node for each ARN of its input: the ARNs of its
  result are pairwise different and are exactly the ARNs of the input. Inserted into the
  empty graph, the merged nodes give one vertex each, in the same order. Without an
  ignore list these are the vertices of the graph when the pmapper edges have been
  made; with an ignore list the graph then has one vertex for each merged ARN that the
  list does not name, and none for an ARN that it names.
\<close>

theorem one_node_per_arn:
  "distinct (map Arn (mergeNodes risk nodes))
   \<and> set (map Arn (mergeNodes risk nodes)) = set (map Arn nodes)
   \<and> map fst (vertices (GlobalGraph
        (makeVertices (env\<lparr>MergeNodes := mergeNodes risk\<rparr>)
           (st\<lparr>GlobalNodes := nodes, GlobalGraph := emptyGraph\<rparr>)))) =
       map Arn (mergeNodes risk nodes)
   \<and> map fst (vertices (GlobalGraph
        (makePmapperEdges (applyArnIgnoreList (env\<lparr>MergeNodes := mergeNodes risk\<rparr>)
           (makeVertices (env\<lparr>MergeNodes := mergeNodes risk\<rparr>)
              (st\<lparr>GlobalNodes := nodes, GlobalGraph := emptyGraph\<rparr>)))))) =
       (if CapeArnIgnoreList env = [] then map Arn (mergeNodes risk nodes)
        else filter (\<lambda>arn. arn \<notin> set (ReadArnIgnoreListFile env (CapeArnIgnoreList env)))
               (map Arn (mergeNodes risk nodes)))"
proof -
  define env' where "env' = env\<lparr>MergeNodes := mergeNodes risk\<rparr>"
  define st' where "st' = st\<lparr>GlobalNodes := nodes, GlobalGraph := emptyGraph\<rparr>"
  define made where "made = GlobalGraph (makeVertices env' st')"
  have "vertices (GlobalGraph (foldl (insertVertex b) s (mergeNodes risk nodes))) =
          map (\<lambda>node. (Arn node, vertexOptions node [])) (mergeNodes risk nodes)"
    if "GlobalGraph s = emptyGraph" for b and s :: CapeRun
    using vertices_insertVertices [of "mergeNodes risk nodes" s b] that
    by (simp add: Arn_mergeNodes emptyGraph_def)
  then have v: "vertices made = map (\<lambda>node. (Arn node, vertexOptions node [])) (mergeNodes risk nodes)"
    by (simp add: made_def makeVertices_def Let_def env'_def st'_def)
  have e: "edges made = []"
    by (simp add: made_def st'_def emptyGraph_def)
  have 3: "map fst (vertices made) = map Arn (mergeNodes risk nodes)"
    by (simp add: v comp_def)
  have 4: "map fst (vertices (GlobalGraph (makePmapperEdges (applyArnIgnoreList env' (makeVertices env' st'))))) =
       (if CapeArnIgnoreList env = [] then map Arn (mergeNodes risk nodes)
        else filter (\<lambda>arn. arn \<notin> set (ReadArnIgnoreListFile env (CapeArnIgnoreList env)))
               (map Arn (mergeNodes risk nodes)))"
  proof (cases "CapeArnIgnoreList env = []")
    case True
    then show ?thesis
      using 3 by (simp add: makePmapperEdges_def applyArnIgnoreList_def env'_def made_def)
  next
    case False
    have "vertices (GlobalGraph (makePmapperEdges (applyArnIgnoreList env' (makeVertices env' st')))) =
            vertices (foldl removeIgnored made (ReadArnIgnoreListFile env (CapeArnIgnoreList env)))"
      using False by (simp add: makePmapperEdges_def applyArnIgnoreList_def env'_def made_def)
    also have "\<dots> = filter (\<lambda>v. fst v \<notin> set (ReadArnIgnoreListFile env (CapeArnIgnoreList env)))
                       (vertices made)"
      using e by (rule removeIgnored_fold_vertices)
    finally show ?thesis
      using False by (simp add: v filter_map comp_def)
  qed
  from Arn_mergeNodes [of risk nodes] 3 4 show ?thesis
    unfolding made_def env'_def st'_def by blast
qed

text \<open>
  Witness for C8: the admin role comes twice, from pmapper and from the role listing;
  the merge keeps it once, with the fields of both, and the graph has one vertex for it.
  With an ignore list that names the role the graph has the other two vertices.
\<close>

theorem one_node_per_arn_witness:
  "map Arn [alice, admin, admin\<lparr>Name := [], IsAdminString := []\<rparr>, partner] =
     [Arn alice, Arn admin, Arn admin, Arn partner]
   \<and> mergeNodes firstNonEmpty [alice, admin, admin\<lparr>Name := [], IsAdminString := []\<rparr>, partner] =
       [alice, admin, partner]
   \<and> distinct (map Arn (mergeNodes firstNonEmpty [alice, admin, admin\<lparr>Name := [], IsAdminString := []\<rparr>, partner]))
   \<and> map fst (vertices (GlobalGraph
        (makeVertices (exampleEnv\<lparr>MergeNodes := mergeNodes firstNonEmpty\<rparr>)
           ((initialRun exampleEnv)\<lparr>GlobalNodes := [alice, admin, admin\<lparr>Name := [], IsAdminString := []\<rparr>, partner],
              GlobalGraph := emptyGraph\<rparr>)))) =
       [Arn alice, Arn admin, Arn partner]
   \<and> map fst (vertices (GlobalGraph
        (makePmapperEdges (applyArnIgnoreList (exampleEnv\<lparr>CapeArnIgnoreList := ''ignore.txt'', MergeNodes := mergeNodes firstNonEmpty\<rparr>)
           (makeVertices (exampleEnv\<lparr>CapeArnIgnoreList := ''ignore.txt'', MergeNodes := mergeNodes firstNonEmpty\<rparr>)
              ((initialRun exampleEnv)\<lparr>GlobalNodes := [alice, admin, admin\<lparr>Name := [], IsAdminString := []\<rparr>, partner],
                 GlobalGraph := emptyGraph\<rparr>)))))) =
       [Arn alice, Arn partner]"
proof -
  have m: "mergeNodes firstNonEmpty [alice, admin, admin\<lparr>Name := [], IsAdminString := []\<rparr>, partner] =
       [alice, admin, partner]"
    by code_simp
  have a: "map Arn [alice, admin, admin\<lparr>Name := [], IsAdminString := []\<rparr>, partner] =
     [Arn alice, Arn admin, Arn admin, Arn partner]"
    by simp
  have i: "CapeArnIgnoreList (exampleEnv\<lparr>CapeArnIgnoreList := ''ignore.txt''\<rparr>) \<noteq> []"
    "filter (\<lambda>arn. arn \<notin> set (ReadArnIgnoreListFile (exampleEnv\<lparr>CapeArnIgnoreList := ''ignore.txt''\<rparr>)
                (CapeArnIgnoreList (exampleEnv\<lparr>CapeArnIgnoreList := ''ignore.txt''\<rparr>))))
       [Arn alice, Arn admin, Arn partner] = [Arn alice, Arn partner]"
    by code_simp+
  from one_node_per_arn [of firstNonEmpty "[alice, admin, admin\<lparr>Name := [], IsAdminString := []\<rparr>, partner]"
      exampleEnv "initialRun exampleEnv"]
    one_node_per_arn [of firstNonEmpty "[alice, admin, admin\<lparr>Name := [], IsAdminString := []\<rparr>, partner]"
      "exampleEnv\<lparr>CapeArnIgnoreList := ''ignore.txt''\<rparr>" "initialRun exampleEnv"]
    m a i
  show ?thesis by simp
qed

text \<open>
  C8 as stated fails in its second half: in the small run with an ignore list that names
  the admin role, the ARN of the role is among the merged nodes, which the spec-modelled
  merge made, and the graph of the run has no vertex for it.
\<close>

theorem one_node_per_arn_counterexample:
  "MergeNodes (exampleEnv\<lparr>CapeArnIgnoreList := ''ignore.txt''\<rparr>) = mergeNodes firstNonEmpty
   \<and> \<not> isl (runCapeCommand (exampleEnv\<lparr>CapeArnIgnoreList := ''ignore.txt''\<rparr>))
   \<and> Arn admin \<in> set (map Arn (mergedNodes (projr (runCapeCommand (exampleEnv\<lparr>CapeArnIgnoreList := ''ignore.txt''\<rparr>)))))
   \<and> map_of (vertices (GlobalGraph (projr (runCapeCommand (exampleEnv\<lparr>CapeArnIgnoreList := ''ignore.txt''\<rparr>)))))
        (Arn admin) = None"
proof -
  have 1: "MergeNodes (exampleEnv\<lparr>CapeArnIgnoreList := ''ignore.txt''\<rparr>) = mergeNodes firstNonEmpty"
    by (simp add: exampleEnv_def)
  have 2: "\<not> isl (runCapeCommand (exampleEnv\<lparr>CapeArnIgnoreList := ''ignore.txt''\<rparr>))"
    "Arn admin \<in> set (map Arn (mergedNodes (projr (runCapeCommand (exampleEnv\<lparr>CapeArnIgnoreList := ''ignore.txt''\<rparr>)))))"
    "map_of (vertices (GlobalGraph (projr (runCapeCommand (exampleEnv\<lparr>CapeArnIgnoreList := ''ignore.txt''\<rparr>)))))
        (Arn admin) = None"
    by code_simp+
  from 1 2 show ?thesis by blast
qed

subsection \<open>What reaches a vertex\<close>

text \<open>
  The nodes of one profile, in the order of their collection: the imported pmapper
  nodes, every listed role as \<^verbatim>\<open>ConvertIAMRoleToNode\<close> makes it from the ledger of that
  moment, followed by the principals of its trust policy, and the listed users. The
  ledger of that moment already has the mark of a failed permissions gathering.
\<close>

lemma addRoles_nodes_eq:
  "GlobalNodes (foldl (addRole env) st roles) =
     GlobalNodes st @
     concat (map (\<lambda>role. ConvertIAMRoleToNode env role (analyzedAccounts st)
                    # FindVerticesInRoleTrust env (ConvertIAMRoleToNode env role (analyzedAccounts st)))
               roles)"
proof (induction roles arbitrary: st)
  case Nil
  then show ?case by simp
next
  case (Cons r roles)
  have "analyzedAccounts (addRole env st r) = analyzedAccounts st"
    by (simp add: addRole_def Let_def)
  then show ?case
    by (simp add: Cons.IH) (simp add: addRole_def Let_def)
qed

lemma collectProfile_nodes_eq:
  assumes "AWSWhoami env profile = Some caller"
  shows "GlobalNodes (collectProfile env st profile) =
     GlobalNodes st @ Nodes (pmapperModOf st profile) @
     concat (map (\<lambda>role.
          ConvertIAMRoleToNode env role
            (analyzedAccounts (gatherPermissions env st profile (ptr_ToString (Account caller))))
          # FindVerticesInRoleTrust env
              (ConvertIAMRoleToNode env role
                 (analyzedAccounts (gatherPermissions env st profile (ptr_ToString (Account caller))))))
        (CachedIamListRoles env profile (ptr_ToString (Account caller)))) @
     map (ConvertIAMUserToNode env) (CachedIamListUsers env profile (ptr_ToString (Account caller)))"
  using assms by (simp add: collectProfile_def Let_def addRoles_nodes_eq)

lemma gatherPermissions_marks:
  "GetRows env profile = None \<Longrightarrow>
     analyzedAccounts (gatherPermissions env st profile acct) acct = Some failedAccount"
  by (simp add: gatherPermissions_def)

text \<open>
  Every vertex made from the merged nodes carries the attributes of one of them: its two
  risk attributes are the strings \<^verbatim>\<open>IsAdminString\<close> and \<^verbatim>\<open>CanPrivEscToAdminString\<close> of that
  node, and the ledger plays no part.
\<close>

lemma vertices_insertVertices_from:
  "set (vertices (GlobalGraph (foldl (insertVertex b) st nodes))) \<subseteq>
     set (vertices (GlobalGraph st)) \<union> (\<lambda>node. (Arn node, vertexOptions node [])) ` set nodes"
proof (induction nodes arbitrary: st)
  case Nil
  then show ?case by simp
next
  case (Cons n nodes)
  have "set (vertices (GlobalGraph (insertVertex b st n))) \<subseteq>
          insert (Arn n, vertexOptions n []) (set (vertices (GlobalGraph st)))"
    by (auto simp: graph_insertVertex)
  with Cons.IH [of "insertVertex b st n"] show ?case by auto
qed

lemma vertex_of_merged_node:
  assumes "GlobalGraph st = emptyGraph"
    and "(arn, attrs) \<in> set (vertices (GlobalGraph (makeVertices env st)))"
  shows "\<exists>node \<in> set (MergeNodes env (GlobalNodes st)).
           arn = Arn node
           \<and> map_of attrs ''IsAdminString'' = Some (IsAdminString node)
           \<and> map_of attrs ''CanPrivEscToAdminString'' = Some (CanPrivEscToAdminString node)
           \<and> map_of attrs ''AccountID'' = Some (NodeAccountID node)"
proof -
  from assms(2) vertices_insertVertices_from
    [of "CapeAdminOnly env"
        "st\<lparr>mergedNodes := MergeNodes env (GlobalNodes st),
            calls := calls st @ [CallMergeNodes (GlobalNodes st)]\<rparr>"
        "MergeNodes env (GlobalNodes st)"]
  have "(arn, attrs) \<in> (\<lambda>node. (Arn node, vertexOptions node [])) ` set (MergeNodes env (GlobalNodes st))"
    by (auto simp: makeVertices_def Let_def assms(1) emptyGraph_def)
  then obtain node where "node \<in> set (MergeNodes env (GlobalNodes st))"
    "arn = Arn node" "attrs = vertexOptions node []"
    by auto
  then show ?thesis
    by (auto simp: vertexOptions_def VertexAttribute_def)
qed

subsection \<open>The whole run\<close>

text \<open>
  C1, as amended. A run that leaves the process at the operator prompt has called neither
  \<^verbatim>\<open>MergeNodes\<close> nor \<^verbatim>\<open>AddVertex\<close>. A run that returns has called \<^verbatim>\<open>MergeNodes\<close> once, before
  every \<^verbatim>\<open>AddVertex\<close>, on the node list as it stands after the third loop has run over
  every profile, and after it \<^verbatim>\<open>AddVertex\<close> once for each merged node and for nothing else.
\<close>

theorem merge_before_vertices:
  "case runCapeCommand env of
     Inl e \<Rightarrow> callsOf (Inl e) = []
   | Inr st \<Rightarrow>
       callsOf (Inr st) = CallMergeNodes (GlobalNodes st) # map CallAddVertex (mergedNodes st)
       \<and> mergedNodes st = MergeNodes env (GlobalNodes st)
       \<and> (\<exists>st2. importPmapperData env (AWSProfiles env)
                    (foldl (registerProfile env) (initialRun env) (AWSProfiles env)) = Inr st2
              \<and> GlobalNodes st = GlobalNodes (foldl (collectProfile env) st2 (AWSProfiles env)))"
proof (cases "runCapeCommand env")
  case (Inl e)
  obtain code st' where e: "e = OsExit code st'" by (cases e)
  from run_exits [OF Inl] importPmapperData_exit [of env "AWSProfiles env" _ code st']
  have "calls st' = []" by (simp add: e initialRun_def)
  with Inl show ?thesis by (simp add: callsOf_def e)
next
  case (Inr st)
  obtain st2 where st2: "importPmapperData env (AWSProfiles env)
              (foldl (registerProfile env) (initialRun env) (AWSProfiles env)) = Inr st2"
    and st: "st = assemble env (collectAll env st2)"
    using run_returns [OF Inr] by blast
  from importPmapperData_frame [OF st2] have c2: "calls st2 = []"
    by (simp add: initialRun_def)
  have "calls st = CallMergeNodes (GlobalNodes st) # map CallAddVertex (mergedNodes st)"
    by (simp add: st assemble_def collectAll_def c2)
  moreover have "mergedNodes st = MergeNodes env (GlobalNodes st)"
    by (simp add: st assemble_def)
  moreover have "GlobalNodes st = GlobalNodes (foldl (collectProfile env) st2 (AWSProfiles env))"
    by (simp add: st assemble_def collectAll_def)
  ultimately show ?thesis
    using Inr st2 by (simp add: callsOf_def)
qed

text \<open>
  C1 as stated fails: when the pmapper import of \<^verbatim>\<open>prod\<close> fails and standard input is at
  its end, the run leaves the process and \<^verbatim>\<open>MergeNodes\<close> has not been called at all.
\<close>

theorem merge_before_vertices_counterexample:
  "isl (runCapeCommand (exampleEnv\<lparr>stdin := []\<rparr>))
   \<and> callsOf (runCapeCommand (exampleEnv\<lparr>stdin := []\<rparr>)) = []"
  by code_simp

text \<open>
  C2, as amended. The operator is asked once for each profile whose pmapper import
  fails. When some answer is not \<^verbatim>\<open>y\<close>, the run leaves the process with status 1. When
  every answer is \<^verbatim>\<open>y\<close>, the run returns; the ledger entry of every account with a failed
  pmapper import or failed permissions gathering is the record of a failure, every other
  account registered in the first loop keeps its record, and the nodes and edges of every
  profile whose pmapper import succeeded are among the collected ones.
\<close>

theorem collection_failures:
  "((\<exists>answer \<in> set (promptAnswers env). answer \<noteq> ''y'') \<longrightarrow>
      (\<exists>st. runCapeCommand env = Inl (OsExit 1 st)))
   \<and> ((\<forall>answer \<in> set (promptAnswers env). answer = ''y'') \<longrightarrow>
      (\<exists>st. runCapeCommand env = Inr st
         \<and> (\<forall>acct. failedIn env acct \<longrightarrow> analyzedAccounts st acct = Some failedAccount)
         \<and> (\<forall>acct r. \<not> failedIn env acct \<and> registered env acct = Some r \<longrightarrow>
               analyzedAccounts st acct = Some r)
         \<and> (\<forall>profile \<in> set (AWSProfiles env). \<forall>m. importedModule env profile = Some m \<longrightarrow>
               set (Nodes m) \<subseteq> set (GlobalNodes st)
               \<and> set (Edges m) \<subseteq> set (GlobalPmapperEdges st))))"
proof (intro conjI impI)
  define st1 where "st1 = foldl (registerProfile env) (initialRun env) (AWSProfiles env)"
  have u: "unread st1 = stdin env" by (simp add: st1_def initialRun_def)
  have ex: "isl (importPmapperData env (AWSProfiles env) st1) =
              (\<exists>answer \<in> set (promptAnswers env). answer \<noteq> ''y'')"
    unfolding importPmapperData_exits u promptAnswers_def Let_def ..
  {
    assume "\<exists>answer \<in> set (promptAnswers env). answer \<noteq> ''y''"
    with ex obtain e where e: "importPmapperData env (AWSProfiles env) st1 = Inl e"
      by (auto simp: isl_def)
    obtain code st' where "e = OsExit code st'" by (cases e)
    with e importPmapperData_exit [of env "AWSProfiles env" st1 code st']
    have "importPmapperData env (AWSProfiles env) st1 = Inl (OsExit 1 st')" by simp
    then show "\<exists>st. runCapeCommand env = Inl (OsExit 1 st)"
      by (auto simp: runCapeCommand_def st1_def)
  }
  {
    assume "\<forall>answer \<in> set (promptAnswers env). answer = ''y''"
    with ex have "\<not> isl (importPmapperData env (AWSProfiles env) st1)" by simp
    then obtain st2 where st2: "importPmapperData env (AWSProfiles env) st1 = Inr st2"
      by (cases "importPmapperData env (AWSProfiles env) st1") auto
    define st where "st = assemble env (collectAll env st2)"
    have run: "runCapeCommand env = Inr st"
      using st2 by (simp add: runCapeCommand_def st1_def st_def)
    have a: "\<forall>acct. failedIn env acct \<longrightarrow> analyzedAccounts st acct = Some failedAccount"
      by (simp add: final_ledger [OF run])
    have b: "\<forall>acct r. \<not> failedIn env acct \<and> registered env acct = Some r \<longrightarrow>
               analyzedAccounts st acct = Some r"
      by (simp add: final_ledger [OF run])
    have c: "\<forall>profile \<in> set (AWSProfiles env). \<forall>m. importedModule env profile = Some m \<longrightarrow>
               set (Nodes m) \<subseteq> set (GlobalNodes st)
               \<and> set (Edges m) \<subseteq> set (GlobalPmapperEdges st)"
    proof (intro ballI allI impI)
      fix profile m
      assume p: "profile \<in> set (AWSProfiles env)" and m: "importedModule env profile = Some m"
      from m obtain caller where caller: "AWSWhoami env profile = Some caller"
        by (auto simp: importedModule_def split: option.splits)
      have "pmapperData st2 profile = Some m"
        using importPmapperData_modules [OF st2, of profile] p m by simp
      then have "pmapperModOf st2 profile = m" by (simp add: pmapperModOf_def)
      with collectProfiles_imported [OF p caller, of st2]
      show "set (Nodes m) \<subseteq> set (GlobalNodes st) \<and> set (Edges m) \<subseteq> set (GlobalPmapperEdges st)"
        by (simp add: st_def assemble_def collectAll_def)
    qed
    from run a b c
    show "\<exists>st. runCapeCommand env = Inr st
         \<and> (\<forall>acct. failedIn env acct \<longrightarrow> analyzedAccounts st acct = Some failedAccount)
         \<and> (\<forall>acct r. \<not> failedIn env acct \<and> registered env acct = Some r \<longrightarrow>
               analyzedAccounts st acct = Some r)
         \<and> (\<forall>profile \<in> set (AWSProfiles env). \<forall>m. importedModule env profile = Some m \<longrightarrow>
               set (Nodes m) \<subseteq> set (GlobalNodes st)
               \<and> set (Edges m) \<subseteq> set (GlobalPmapperEdges st))"
      by blast
  }
qed

text \<open>
  C2 as stated fails: the pmapper import of \<^verbatim>\<open>prod\<close> alone fails, the operator answers
  \<^verbatim>\<open>n\<close>, and the whole run ends without a graph.
\<close>

theorem collection_failures_counterexample:
  "pmapperFails (exampleEnv\<lparr>stdin := [''n'']\<rparr>) ''prod''
   \<and> \<not> pmapperFails (exampleEnv\<lparr>stdin := [''n'']\<rparr>) ''dev''
   \<and> isl (runCapeCommand (exampleEnv\<lparr>stdin := [''n'']\<rparr>))"
  by code_simp

text \<open>
  Witness for C2: in the small run the operator answers \<^verbatim>\<open>y\<close> to the one prompt; the run
  returns, account 222 is marked, account 111 keeps its record and the pmapper nodes of
  \<^verbatim>\<open>dev\<close> are collected. With the answer \<^verbatim>\<open>n\<close> the run leaves the process.
\<close>

theorem collection_failures_witness:
  "promptAnswers exampleEnv = [''y'']
   \<and> promptAnswers (exampleEnv\<lparr>stdin := [''n'']\<rparr>) = [''n'']
   \<and> (\<exists>st. runCapeCommand (exampleEnv\<lparr>stdin := [''n'']\<rparr>) = Inl (OsExit 1 st))
   \<and> (\<exists>st. runCapeCommand exampleEnv = Inr st
         \<and> analyzedAccounts st ''222'' = Some failedAccount
         \<and> analyzedAccounts st ''111'' = Some (userAccount True ''111'' ''dev'')
         \<and> set (Nodes devPmapper) \<subseteq> set (GlobalNodes st))"
proof -
  have y: "promptAnswers exampleEnv = [''y'']" by code_simp
  have n: "promptAnswers (exampleEnv\<lparr>stdin := [''n'']\<rparr>) = [''n'']" by code_simp
  have f: "failedIn exampleEnv ''222''" "\<not> failedIn exampleEnv ''111''"
    by code_simp+
  have r: "registered exampleEnv ''111'' = Some (userAccount True ''111'' ''dev'')" by code_simp
  have m: "''dev'' \<in> set (AWSProfiles exampleEnv)" "importedModule exampleEnv ''dev'' = Some devPmapper"
    by code_simp+
  from collection_failures [of "exampleEnv\<lparr>stdin := [''n'']\<rparr>"] n
  have 1: "\<exists>st. runCapeCommand (exampleEnv\<lparr>stdin := [''n'']\<rparr>) = Inl (OsExit 1 st)" by simp
  from collection_failures [of exampleEnv] y obtain st where
    "runCapeCommand exampleEnv = Inr st"
    "\<forall>acct. failedIn exampleEnv acct \<longrightarrow> analyzedAccounts st acct = Some failedAccount"
    "\<forall>acct r. \<not> failedIn exampleEnv acct \<and> registered exampleEnv acct = Some r \<longrightarrow>
               analyzedAccounts st acct = Some r"
    "\<forall>profile \<in> set (AWSProfiles exampleEnv). \<forall>m. importedModule exampleEnv profile = Some m \<longrightarrow>
               set (Nodes m) \<subseteq> set (GlobalNodes st)
               \<and> set (Edges m) \<subseteq> set (GlobalPmapperEdges st)"
    by auto
  with f r m have "runCapeCommand exampleEnv = Inr st
         \<and> analyzedAccounts st ''222'' = Some failedAccount
         \<and> analyzedAccounts st ''111'' = Some (userAccount True ''111'' ''dev'')
         \<and> set (Nodes devPmapper) \<subseteq> set (GlobalNodes st)"
    by blast
  with y n 1 show ?thesis by blast
qed

text \<open>
  C5. The first loop gives account 222 a record with its account ID, profile, source
  \<^verbatim>\<open>user\<close> and the admin-only flag. After the failed pmapper import the entry is the
  struct literal of the failure: all four fields are lost.
\<close>

theorem failure_overwrites_record:
  "registered exampleEnv ''222'' =
     Some \<lparr>AccountID = ''222'', Profile = ''prod'', AnalyzedSuccessfully = True,
           AdminOnlyAnalysis = True, Source = ''user''\<rparr>
   \<and> \<not> isl (runCapeCommand exampleEnv)
   \<and> analyzedAccounts (projr (runCapeCommand exampleEnv)) ''222'' =
     Some \<lparr>AccountID = [], Profile = [], AnalyzedSuccessfully = False,
           AdminOnlyAnalysis = False, Source = []\<rparr>"
  by code_simp

text \<open>
  C10. A node with an empty account ID leaves the ledger as it is, so inserting vertices
  never makes the empty string a key of the ledger. When the account IDs that the
  profiles resolve to are not empty, the empty string is no key of the ledger of a run
  that returns.
\<close>

theorem ledger_keys_nonempty:
  assumes "\<forall>profile \<in> set (AWSProfiles env). accountOf env profile \<noteq> Some []"
    and "runCapeCommand env = Inr st"
  shows "[] \<notin> dom (analyzedAccounts st)
         \<and> (\<forall>capeAdminOnly st0 node. NodeAccountID node = [] \<longrightarrow>
               analyzedAccounts (insertVertex capeAdminOnly st0 node) = analyzedAccounts st0)
         \<and> (\<forall>capeAdminOnly st0 nodes.
               ([] \<in> dom (analyzedAccounts (foldl (insertVertex capeAdminOnly) st0 nodes)))
                 = ([] \<in> dom (analyzedAccounts st0)))"
proof -
  have nf: "\<not> failedIn env []"
    using assms(1) by (auto simp: failedIn_iff)
  have "registered env [] = None"
  proof (rule ccontr)
    assume "registered env [] \<noteq> None"
    then have "analyzedAccounts (initialRun env) [] \<noteq> None
               \<or> (\<exists>p \<in> set (AWSProfiles env). accountOf env p = Some [])"
      unfolding registered_def by (rule registerProfiles_keys)
    with assms(1) show False by (auto simp: initialRun_def)
  qed
  with nf have "analyzedAccounts st [] = None"
    by (simp add: final_ledger [OF assms(2)])
  then have 1: "[] \<notin> dom (analyzedAccounts st)" by (simp add: dom_def)
  have 2: "\<forall>capeAdminOnly st0 node. NodeAccountID node = [] \<longrightarrow>
               analyzedAccounts (insertVertex capeAdminOnly st0 node) = analyzedAccounts st0"
    by (simp add: discoverAccount_def)
  have 3: "\<forall>capeAdminOnly st0 nodes.
               ([] \<in> dom (analyzedAccounts (foldl (insertVertex capeAdminOnly) st0 nodes)))
                 = ([] \<in> dom (analyzedAccounts st0))"
    by (auto simp: ledger_insertVertices discoverAccount_fold dom_def split: option.splits)
  from 1 2 3 show ?thesis by blast
qed

text \<open>
  Witness for C10: the small run, whose merged nodes include the wildcard principal with
  its empty account ID.
\<close>

theorem ledger_keys_nonempty_witness:
  "accountOf exampleEnv ''dev'' = Some ''111'' \<and> accountOf exampleEnv ''prod'' = Some ''222''
   \<and> AWSProfiles exampleEnv = [''dev'', ''prod'']
   \<and> runCapeCommand exampleEnv = Inr (projr (runCapeCommand exampleEnv))
   \<and> wildcard \<in> set (mergedNodes (projr (runCapeCommand exampleEnv)))
   \<and> NodeAccountID wildcard = []
   \<and> [] \<notin> dom (analyzedAccounts (projr (runCapeCommand exampleEnv)))
   \<and> analyzedAccounts (insertVertex True (initialRun exampleEnv) wildcard) =
       analyzedAccounts (initialRun exampleEnv)"
proof -
  have a: "accountOf exampleEnv ''dev'' = Some ''111''" "accountOf exampleEnv ''prod'' = Some ''222''"
    "AWSProfiles exampleEnv = [''dev'', ''prod'']"
    by code_simp+
  have "\<not> isl (runCapeCommand exampleEnv)" by code_simp
  then have r: "runCapeCommand exampleEnv = Inr (projr (runCapeCommand exampleEnv))"
    by (cases "runCapeCommand exampleEnv") simp_all
  have w: "wildcard \<in> set (mergedNodes (projr (runCapeCommand exampleEnv)))" "NodeAccountID wildcard = []"
    by code_simp+
  have h: "\<forall>profile \<in> set (AWSProfiles exampleEnv). accountOf exampleEnv profile \<noteq> Some []"
    by (simp add: a)
  from ledger_keys_nonempty [OF h r] w(2) a r w(1) show ?thesis by blast
qed

text \<open>
  C7. In a run that returns with an ignore list, the graph has no edge yet when the
  vertices of the list are removed (none after the vertices are made, none after the
  removal). A vertex named in the list is then no vertex of the graph. Inserting a
  pmapper edge that starts or ends at it, at any point of the loop over the pmapper
  edges, makes \<^verbatim>\<open>AddEdge\<close> answer \<^verbatim>\<open>ErrVertexNotFound\<close>, which the loop drops: the graph
  is unchanged. After that loop no edge starts or ends at the vertex.
\<close>

theorem ignored_vertices:
  assumes run: "runCapeCommand env = Inr st"
    and flag: "CapeArnIgnoreList env \<noteq> []"
    and arn: "arn \<in> set (ReadArnIgnoreListFile env (CapeArnIgnoreList env))"
  shows "\<exists>st0. st = makeRoleEdges env (makePmapperEdges (applyArnIgnoreList env (makeVertices env st0)))
     \<and> edges (GlobalGraph (makeVertices env st0)) = []
     \<and> edges (GlobalGraph (applyArnIgnoreList env (makeVertices env st0))) = []
     \<and> map_of (vertices (GlobalGraph (applyArnIgnoreList env (makeVertices env st0)))) arn = None
     \<and> (\<forall>es e. EdgeSource e = arn \<or> Destination e = arn \<longrightarrow>
          AddEdge
            (foldl addPmapperEdge (GlobalGraph (applyArnIgnoreList env (makeVertices env st0))) es)
            (EdgeSource e) (Destination e) (EdgeAttribute (ShortReason e) (Reason e)) =
          Inl ErrVertexNotFound
          \<and> addPmapperEdge
            (foldl addPmapperEdge (GlobalGraph (applyArnIgnoreList env (makeVertices env st0))) es) e =
          foldl addPmapperEdge (GlobalGraph (applyArnIgnoreList env (makeVertices env st0))) es)
     \<and> (\<forall>e \<in> set (edges (GlobalGraph
                 (makePmapperEdges (applyArnIgnoreList env (makeVertices env st0))))).
          fst (fst e) \<noteq> arn \<and> snd (fst e) \<noteq> arn)"
proof -
  obtain st2 where st2: "importPmapperData env (AWSProfiles env)
              (foldl (registerProfile env) (initialRun env) (AWSProfiles env)) = Inr st2"
    and st: "st = assemble env (collectAll env st2)"
    using run_returns [OF run] by blast
  define st0 where "st0 = collectAll env st2"
  define st1 where "st1 = applyArnIgnoreList env (makeVertices env st0)"
  define g1 where "g1 = GlobalGraph st1"
  have "GlobalGraph st0 = emptyGraph"
    using importPmapperData_frame [OF st2] by (simp add: st0_def collectAll_def initialRun_def)
  then have e0: "edges (GlobalGraph (makeVertices env st0)) = []"
    by (simp add: emptyGraph_def)
  have g1: "g1 = foldl removeIgnored (GlobalGraph (makeVertices env st0))
                   (ReadArnIgnoreListFile env (CapeArnIgnoreList env))"
    using flag by (simp add: g1_def st1_def applyArnIgnoreList_def)
  from removeIgnored_fold [OF e0, of "ReadArnIgnoreListFile env (CapeArnIgnoreList env)"] arn
  have e1: "edges g1 = []" and v1: "map_of (vertices g1) arn = None"
    by (simp_all add: g1)
  have step: "AddEdge (foldl addPmapperEdge g1 es) (EdgeSource e) (Destination e)
                 (EdgeAttribute (ShortReason e) (Reason e)) = Inl ErrVertexNotFound
              \<and> addPmapperEdge (foldl addPmapperEdge g1 es) e = foldl addPmapperEdge g1 es"
    if "EdgeSource e = arn \<or> Destination e = arn" for es e
  proof
    show "AddEdge (foldl addPmapperEdge g1 es) (EdgeSource e) (Destination e)
            (EdgeAttribute (ShortReason e) (Reason e)) = Inl ErrVertexNotFound"
      using that v1 by (auto simp: AddEdge_def)
    show "addPmapperEdge (foldl addPmapperEdge g1 es) e = foldl addPmapperEdge g1 es"
      using that v1 by (intro addPmapperEdge_missing) auto
  qed
  have "edgesClosed g1" by (simp add: edgesClosed_def e1)
  then have "edgesClosed (foldl addPmapperEdge g1 (GlobalPmapperEdges st1))"
    by (rule addPmapperEdges_closed)
  then have fin: "\<forall>e \<in> set (edges (GlobalGraph (makePmapperEdges st1))).
                    fst (fst e) \<noteq> arn \<and> snd (fst e) \<noteq> arn"
    using v1 by (auto simp: edgesClosed_def list_all_iff makePmapperEdges_def g1_def)
  have "st = makeRoleEdges env (makePmapperEdges (applyArnIgnoreList env (makeVertices env st0)))"
    by (simp add: st assemble_def st0_def)
  with e0 e1 v1 step fin show ?thesis
    unfolding g1_def st1_def by blast
qed

text \<open>
  Witness for C7: the small run with an ignore list that names the admin role. Both
  pmapper edges end at that role, and the finished graph has no edge.
\<close>

theorem ignored_vertices_witness:
  "CapeArnIgnoreList (exampleEnv\<lparr>CapeArnIgnoreList := ''ignore.txt''\<rparr>) \<noteq> []
   \<and> Arn admin \<in> set (ReadArnIgnoreListFile (exampleEnv\<lparr>CapeArnIgnoreList := ''ignore.txt''\<rparr>) ''ignore.txt'')
   \<and> (\<exists>st. runCapeCommand (exampleEnv\<lparr>CapeArnIgnoreList := ''ignore.txt''\<rparr>) = Inr st
         \<and> map_of (vertices (GlobalGraph st)) (Arn admin) = None
         \<and> map_of (vertices (GlobalGraph st)) (Arn alice) \<noteq> None
         \<and> edges (GlobalGraph st) = []
         \<and> (\<exists>st0. st = makeRoleEdges (exampleEnv\<lparr>CapeArnIgnoreList := ''ignore.txt''\<rparr>)
                (makePmapperEdges (applyArnIgnoreList (exampleEnv\<lparr>CapeArnIgnoreList := ''ignore.txt''\<rparr>)
                   (makeVertices (exampleEnv\<lparr>CapeArnIgnoreList := ''ignore.txt''\<rparr>) st0)))))"
proof -
  define env where "env = exampleEnv\<lparr>CapeArnIgnoreList := ''ignore.txt''\<rparr>"
  have f: "CapeArnIgnoreList env \<noteq> []" unfolding env_def by code_simp
  have a: "Arn admin \<in> set (ReadArnIgnoreListFile env ''ignore.txt'')" unfolding env_def by code_simp
  have a': "Arn admin \<in> set (ReadArnIgnoreListFile env (CapeArnIgnoreList env))" unfolding env_def by code_simp
  have "\<not> isl (runCapeCommand env)" unfolding env_def by code_simp
  then have r: "runCapeCommand env = Inr (projr (runCapeCommand env))"
    by (cases "runCapeCommand env") simp_all
  have g: "map_of (vertices (GlobalGraph (projr (runCapeCommand env)))) (Arn admin) = None"
    "map_of (vertices (GlobalGraph (projr (runCapeCommand env)))) (Arn alice) \<noteq> None"
    "edges (GlobalGraph (projr (runCapeCommand env))) = []"
    unfolding env_def by code_simp+
  from ignored_vertices [OF r f a'] obtain st0 where
    "projr (runCapeCommand env) = makeRoleEdges env (makePmapperEdges (applyArnIgnoreList env (makeVertices env st0)))"
    by blast
  with r g f a show ?thesis unfolding env_def by blast
qed

subsection \<open>The location of the result file\<close>

lemma elements_append: "elements cur (a @ CHR ''/'' # b) = elements cur a @ elements [] b"
  by (induction a arbitrary: cur) auto

lemma elements_name: "CHR ''/'' \<notin> set a \<Longrightarrow> elements cur a = [cur @ a]"
  by (induction a arbitrary: cur) auto

lemma joinSlash_two_more:
  "joinSlash (out @ [a, b]) =
     (if out = [] then [] else joinSlash out @ ''/'') @ a @ CHR ''/'' # b"
proof (induction out)
  case Nil
  then show ?case by simp
next
  case (Cons e out)
  then show ?case by (cases out) simp_all
qed

lemma cleanStep_name:
  "a \<noteq> [] \<Longrightarrow> a \<noteq> ''.'' \<Longrightarrow> a \<noteq> ''..'' \<Longrightarrow> cleanStep rooted out a = out @ [a]"
  by (simp add: cleanStep_def)

lemma Join_two_names:
  assumes a: "CHR ''/'' \<notin> set a" "a \<noteq> []" "a \<noteq> ''.''" "a \<noteq> ''..''"
    and b: "CHR ''/'' \<notin> set b" "b \<noteq> []" "b \<noteq> ''.''" "b \<noteq> ''..''"
  shows "filepath_Join [dir, a, b] = cleanedDir dir @ a @ CHR ''/'' # b"
proof (cases "dir = []")
  case True
  have "elements [] (a @ CHR ''/'' # b) = [a, b]"
    using a(1) b(1) by (simp add: elements_append elements_name)
  then have "filepath_Clean (a @ CHR ''/'' # b) = a @ CHR ''/'' # b"
    using a b by (cases a) (auto simp: filepath_Clean_def Let_def cleanStep_name)
  with True a(2) show ?thesis by (simp add: cleanedDir_def)
next
  case False
  define rooted where "rooted = (hd dir = CHR ''/'')"
  define out where "out = foldl (cleanStep rooted) [] (elements [] dir)"
  have j: "joinSlash [dir, a, b] = dir @ CHR ''/'' # (a @ CHR ''/'' # b)" by simp
  have e: "elements [] (dir @ CHR ''/'' # (a @ CHR ''/'' # b)) = elements [] dir @ [a, b]"
    using a(1) b(1) by (simp add: elements_append elements_name)
  have f: "foldl (cleanStep rooted) [] (elements [] dir @ [a, b]) = out @ [a, b]"
    using a b by (simp add: out_def cleanStep_name)
  have h: "hd (dir @ CHR ''/'' # (a @ CHR ''/'' # b)) = hd dir"
    using False by simp
  have "filepath_Clean (dir @ CHR ''/'' # (a @ CHR ''/'' # b)) =
          (if rooted then CHR ''/'' # joinSlash (out @ [a, b]) else joinSlash (out @ [a, b]))"
    unfolding filepath_Clean_def Let_def e h rooted_def [symmetric] f using False by simp
  also have "\<dots> = cleanedDir dir @ a @ CHR ''/'' # b"
    unfolding joinSlash_two_more cleanedDir_def Let_def rooted_def [symmetric] out_def [symmetric]
    using False by simp
  finally show ?thesis
    using False by (simp del: joinSlash.simps add: j [simplified])
qed

text \<open>
  C9. The location the viewer computes for a profile depends on nothing but the output
  location of the profile's run data and the admin-only flag: it is the cleaned output
  location followed by \<^verbatim>\<open>json/inbound-privesc-paths-admin-targets-only.json\<close> with the
  flag and by \<^verbatim>\<open>json/inbound-privesc-paths-all-targets.json\<close> without it.
\<close>

theorem viewer_file_location:
  "capeOutputFileLocation env profile =
     map_option (\<lambda>cloudfoxRunData. capeFilePath (OutputLocation cloudfoxRunData) (CapeAdminOnly env))
       (InitializeCloudFoxRunData env profile (AWSOutputDirectory env))
   \<and> capeFilePath outputLocation True =
       cleanedDir outputLocation @ ''json/inbound-privesc-paths-admin-targets-only.json''
   \<and> capeFilePath outputLocation False =
       cleanedDir outputLocation @ ''json/inbound-privesc-paths-all-targets.json''
   \<and> (cleanedDir outputLocation = [] \<or> last (cleanedDir outputLocation) = CHR ''/'')"
proof -
  have 1: "capeOutputFileLocation env profile =
     map_option (\<lambda>cloudfoxRunData. capeFilePath (OutputLocation cloudfoxRunData) (CapeAdminOnly env))
       (InitializeCloudFoxRunData env profile (AWSOutputDirectory env))"
    by (simp add: capeOutputFileLocation_def split: option.splits)
  have 2: "capeFilePath outputLocation True =
       cleanedDir outputLocation @ ''json/inbound-privesc-paths-admin-targets-only.json''"
    unfolding capeFilePath_def capeFileName_def
    by (simp only: if_True, subst Join_two_names) simp_all
  have 3: "capeFilePath outputLocation False =
       cleanedDir outputLocation @ ''json/inbound-privesc-paths-all-targets.json''"
    unfolding capeFilePath_def capeFileName_def
    by (simp only: if_False, subst Join_two_names) simp_all
  have 4: "cleanedDir outputLocation = [] \<or> last (cleanedDir outputLocation) = CHR ''/''"
    by (simp add: cleanedDir_def Let_def)
  from 1 2 3 4 show ?thesis by blast
qed

text \<open>Witness for C9: the location for the profile \<^verbatim>\<open>dev\<close> of the small run.\<close>

theorem viewer_file_location_witness:
  "capeOutputFileLocation exampleEnv ''dev'' =
     Some ''/out/cloudfox-output/aws/dev/json/inbound-privesc-paths-admin-targets-only.json''
   \<and> capeOutputFileLocation (exampleEnv\<lparr>CapeAdminOnly := False\<rparr>) ''dev'' =
     Some ''/out/cloudfox-output/aws/dev/json/inbound-privesc-paths-all-targets.json''
   \<and> capeFilePath ''/out/./cloudfox-output//aws/x/../dev/'' True =
     ''/out/cloudfox-output/aws/dev/json/inbound-privesc-paths-admin-targets-only.json''"
proof -
  have c: "cleanedDir ''/out/./cloudfox-output//aws/x/../dev/'' = ''/out/cloudfox-output/aws/dev/''"
    by code_simp
  have a: "capeOutputFileLocation exampleEnv ''dev'' =
     Some ''/out/cloudfox-output/aws/dev/json/inbound-privesc-paths-admin-targets-only.json''"
    "capeOutputFileLocation (exampleEnv\<lparr>CapeAdminOnly := False\<rparr>) ''dev'' =
     Some ''/out/cloudfox-output/aws/dev/json/inbound-privesc-paths-all-targets.json''"
    by code_simp+
  from viewer_file_location [of exampleEnv "''dev''" "''/out/./cloudfox-output//aws/x/../dev/''"] c
  have "capeFilePath ''/out/./cloudfox-output//aws/x/../dev/'' True =
     ''/out/cloudfox-output/aws/dev/json/inbound-privesc-paths-admin-targets-only.json''"
    by simp
  with a show ?thesis by blast
qed

end
